theory Spec2Isabelle
  imports Complex_Main "HOL-Library.AList"
begin

section \<open>Data model (core/timer.ts, core/interfaces.ts)\<close>

text \<open>
  JavaScript numbers are modelled as \<open>real\<close>, since \<open>performance.now()\<close> yields
  fractional milliseconds. The model computes exactly; the rounding of IEEE doubles is
  left out. Integers below \<open>2^53\<close>, such as the durations of all the examples, are
  doubles without rounding, and so are \<open>x - 0\<close> and \<open>Math.max(0, x)\<close> for any double.
  A \<open>Date\<close> is an integer count of epoch milliseconds; it is never used in arithmetic.
  The optional \<open>data\<close> field of an event is never set by the service and is left out.
\<close>

datatype TimerStatus = CREATED | RUNNING | PAUSED | COMPLETED | CANCELED

record Timer =
  timer_id :: string
  name :: "string option"
  durationMs :: real
  startMonotonicMs :: real
  paused :: bool
  remainingMs :: real
  createdAt :: int
  status :: TimerStatus

text \<open>\<open>duration: string | number | { ms: number }\<close>\<close>

datatype Duration = DStr string | DNum real | DMs real

record TimerCreateRequest =
  req_name :: "string option"
  duration :: Duration

datatype TimerEventType =
  TIMER_CREATED | TIMER_COMPLETED | TIMER_PAUSED | TIMER_RESUMED | TIMER_CANCELED

record TimerEvent =
  ev_type :: TimerEventType
  ev_id :: string
  ev_name :: "string option"
  timestamp :: int

text \<open>
  \<open>InvalidDuration s\<close> is the \<open>Error\<close> thrown by \<open>parseDuration\<close> (its message ends with
  the offending specification \<open>s\<close>); \<open>ZodError\<close> is the validation failure raised by
  \<open>CreateTimerSchema.parse\<close> in the HTTP route.
\<close>

datatype error = InvalidDuration string | ZodError

text \<open>
  The scheduler is only ever handed the closure \<open>() => this.completeTimer(id)\<close>.
\<close>

datatype Callback = CompleteTimer string

text \<open>
  One suspended \<open>schedule\<close> call: the \<open>sleep\<close> promise it awaits, the controller whose
  signal the sleep listens to, and the callback to run afterwards.
\<close>

record Wakeup =
  wk_id :: string
  dueInMs :: real
  wk_ctrl :: nat
  wk_callback :: Callback

section \<open>The world: objects, store, scheduler, event bus\<close>

text \<open>
  Timer objects and \<open>AbortController\<close>s are mutable JavaScript objects, so they live in
  explicit heaps addressed by index; a reference is a \<open>nat\<close>.
  \<^item> \<open>heap\<close>: every Timer object allocated so far (object literals and spread copies);
  \<^item> \<open>timers\<close>: \<open>InMemoryTimerStore.timers\<close>, a \<open>Map\<close> from id to object reference, in
    insertion order;
  \<^item> \<open>controllers\<close>: the \<open>aborted\<close> flag of every \<open>AbortController\<close> created so far;
  \<^item> \<open>scheduledTimers\<close>: \<open>NodeScheduler.scheduledTimers\<close>, id to controller reference;
  \<^item> \<open>sleeping\<close>: \<open>schedule\<close> calls suspended in \<open>await sleep(...)\<close>;
  \<^item> \<open>rejected\<close>: \<open>schedule\<close> calls whose sleep was rejected with \<open>AbortError\<close> and
    whose \<open>catch\<close>/\<open>finally\<close> continuation has not run yet;
  \<^item> \<open>emitted\<close>: the events handed to \<open>EventBus.emit\<close>, oldest first.
\<close>

record World =
  heap :: "Timer list"
  timers :: "(string \<times> nat) list"
  controllers :: "bool list"
  scheduledTimers :: "(string \<times> nat) list"
  sleeping :: "Wakeup list"
  rejected :: "Wakeup list"
  emitted :: "TimerEvent list"

definition init_world :: World where
  "init_world = \<lparr>heap = [], timers = [], controllers = [], scheduledTimers = [],
                 sleeping = [], rejected = [], emitted = []\<rparr>"

text \<open>An object literal or a spread copy \<open>{ ...timer }\<close>: a new object with the given fields.\<close>

definition new_object :: "Timer \<Rightarrow> World \<Rightarrow> nat \<times> World" where
  "new_object t w = (length (heap w), w\<lparr>heap := heap w @ [t]\<rparr>)"

text \<open>
  Field assignments through a reference. A reference the program holds always points
  to an allocated object (see \<open>wf_store\<close> below), so no read goes out of range.
\<close>

definition assign :: "nat \<Rightarrow> (Timer \<Rightarrow> Timer) \<Rightarrow> World \<Rightarrow> World" where
  "assign a f w = w\<lparr>heap := (heap w)[a := f (heap w ! a)]\<rparr>"

subsection \<open>InMemoryTimerStore (infra/memory-store.ts)\<close>

definition store_get :: "string \<Rightarrow> World \<Rightarrow> nat option \<times> World" where
  "store_get i w =
     (case map_of (timers w) i of
        None \<Rightarrow> (None, w)
      | Some a \<Rightarrow> (case new_object (heap w ! a) w of (b, w') \<Rightarrow> (Some b, w')))"

definition store_put :: "nat \<Rightarrow> World \<Rightarrow> World" where
  "store_put a w =
     (case new_object (heap w ! a) w of
        (b, w') \<Rightarrow> w'\<lparr>timers := AList.update (timer_id (heap w ! a)) b (timers w')\<rparr>)"

definition store_delete :: "string \<Rightarrow> World \<Rightarrow> World" where
  "store_delete i w = w\<lparr>timers := AList.delete i (timers w)\<rparr>"

text \<open>\<open>Array.from(this.timers.values()).map(timer => ({ ...timer }))\<close>\<close>

fun copy_all :: "nat list \<Rightarrow> World \<Rightarrow> nat list \<times> World" where
  "copy_all [] w = ([], w)"
| "copy_all (a # as) w =
     (case new_object (heap w ! a) w of
        (b, w') \<Rightarrow> (case copy_all as w' of (bs, w'') \<Rightarrow> (b # bs, w'')))"

definition store_list :: "World \<Rightarrow> nat list \<times> World" where
  "store_list w = copy_all (map snd (timers w)) w"

definition store_close :: "World \<Rightarrow> World" where
  "store_close w = w\<lparr>timers := []\<rparr>"

text \<open>What the store holds: each key of the \<open>Map\<close> with the fields of its object.\<close>

definition stored :: "World \<Rightarrow> (string \<times> Timer) list" where
  "stored w = map (\<lambda>(k, a). (k, heap w ! a)) (timers w)"

subsection \<open>EventBus\<close>

definition eventBus_emit :: "TimerEvent \<Rightarrow> World \<Rightarrow> World" where
  "eventBus_emit e w = w\<lparr>emitted := emitted w @ [e]\<rparr>"

subsection \<open>NodeScheduler (infra/scheduler.ts)\<close>

definition new_AbortController :: "World \<Rightarrow> nat \<times> World" where
  "new_AbortController w = (length (controllers w), w\<lparr>controllers := controllers w @ [False]\<rparr>)"

text \<open>
  \<open>controller.abort()\<close>: nothing happens on a controller that is aborted already;
  otherwise the flag is set and every sleep listening to this controller's signal is
  rejected with \<open>AbortError\<close>.
\<close>

definition abort :: "nat \<Rightarrow> World \<Rightarrow> World" where
  "abort c w =
     (if controllers w ! c then w
      else w\<lparr>controllers := (controllers w)[c := True],
             sleeping := filter (\<lambda>k. wk_ctrl k \<noteq> c) (sleeping w),
             rejected := rejected w @ filter (\<lambda>k. wk_ctrl k = c) (sleeping w)\<rparr>)"

definition scheduler_cancel :: "string \<Rightarrow> World \<Rightarrow> World" where
  "scheduler_cancel i w =
     (case map_of (scheduledTimers w) i of
        None \<Rightarrow> w
      | Some c \<Rightarrow>
          (let w1 = abort c w
           in w1\<lparr>scheduledTimers := AList.delete i (scheduledTimers w1)\<rparr>))"

text \<open>
  \<open>schedule\<close> up to its first \<open>await\<close>: the parameter \<open>signal\<close> does not occur in the body.
\<close>

definition scheduler_schedule :: "string \<Rightarrow> real \<Rightarrow> Callback \<Rightarrow> nat \<Rightarrow> World \<Rightarrow> World" where
  "scheduler_schedule i due callback signal w =
     (let w1 = scheduler_cancel i w
      in case new_AbortController w1 of
           (c, w2) \<Rightarrow>
             w2\<lparr>scheduledTimers := AList.update i c (scheduledTimers w2),
                sleeping := sleeping w2 @
                  [\<lparr>wk_id = i, dueInMs = due, wk_ctrl = c, wk_callback = callback\<rparr>]\<rparr>)"

definition scheduler_shutdown :: "World \<Rightarrow> World" where
  "scheduler_shutdown w =
     (let w1 = fold (\<lambda>(i, c). abort c) (scheduledTimers w) w
      in w1\<lparr>scheduledTimers := []\<rparr>)"

text \<open>
  The continuation of a rejected sleep: the \<open>AbortError\<close> is swallowed by \<open>catch\<close>, then
  \<open>finally\<close> deletes the id from \<open>scheduledTimers\<close>.
\<close>

definition settle :: "Wakeup \<Rightarrow> World \<Rightarrow> World" where
  "settle k w =
     w\<lparr>rejected := remove1 k (rejected w),
       scheduledTimers := AList.delete (wk_id k) (scheduledTimers w)\<rparr>"

section \<open>TimerService (core/timer-service.ts)\<close>

subsection \<open>parseDuration\<close>

definition is_digit :: "char \<Rightarrow> bool" where
  "is_digit c = (c \<in> set ''0123456789'')"

definition is_unit :: "char \<Rightarrow> bool" where
  "is_unit c = (c \<in> set ''smhd'')"

definition toLowerCase_char :: "char \<Rightarrow> char" where
  "toLowerCase_char c =
     (case map_of (zip ''ABCDEFGHIJKLMNOPQRSTUVWXYZ'' ''abcdefghijklmnopqrstuvwxyz'') c of
        None \<Rightarrow> c | Some d \<Rightarrow> d)"

definition toLowerCase :: "string \<Rightarrow> string" where
  "toLowerCase s = map toLowerCase_char s"

definition digit_value :: "char \<Rightarrow> nat" where
  "digit_value c = of_char c - of_char CHR ''0''"

text \<open>
  \<open>toLowerCase\<close> is modelled on ASCII letters; no other character is mapped to one of
  the units \<open>s\<close>, \<open>m\<close>, \<open>h\<close>, \<open>d\<close> or to a digit, so for the regular expression all other
  characters are alike. \<open>parseInt\<close> is applied to strings of decimal digits only.
\<close>

definition parseInt :: "string \<Rightarrow> nat" where
  "parseInt ds = foldl (\<lambda>n c. 10 * n + digit_value c) 0 ds"

text \<open>
  The successive results of \<open>regex.exec\<close> for \<open>/(\d+)([smhd])/g\<close>, scanning left to right.
  The first argument is the run of digits read since the last non-digit. A match can
  only start at a digit and \<open>\d+\<close> is greedy, so the leftmost match takes a maximal run
  of digits and the unit right behind it; a run followed by anything else (or by the
  end of the string) matches nowhere, and the search goes on behind it.
\<close>

fun regex_matches :: "string \<Rightarrow> string \<Rightarrow> (string \<times> char) list" where
  "regex_matches run [] = []"
| "regex_matches run (c # cs) =
     (if is_digit c then regex_matches (run @ [c]) cs
      else if run \<noteq> [] \<and> is_unit c then (run, c) # regex_matches [] cs
      else regex_matches [] cs)"

text \<open>The \<open>switch\<close> of the loop body: the milliseconds one match adds.\<close>

definition unit_ms :: "nat \<Rightarrow> char \<Rightarrow> nat" where
  "unit_ms v u =
     (if u = CHR ''s'' then v * 1000
      else if u = CHR ''m'' then v * 60 * 1000
      else if u = CHR ''h'' then v * 60 * 60 * 1000
      else if u = CHR ''d'' then v * 24 * 60 * 60 * 1000
      else 0)"

definition totalMs :: "string \<Rightarrow> nat" where
  "totalMs s =
     foldl (\<lambda>total (ds, u). total + unit_ms (parseInt ds) u) 0
       (regex_matches [] (toLowerCase s))"

definition parseDuration :: "Duration \<Rightarrow> error + real" where
  "parseDuration d =
     (case d of
        DNum n \<Rightarrow> Inr n
      | DMs n \<Rightarrow> Inr n
      | DStr s \<Rightarrow> (if totalMs s = 0 then Inl (InvalidDuration s) else Inr (real (totalMs s))))"

subsection \<open>generateId\<close>

text \<open>
  \<open>Math.random().toString(36).substring(2, 15)\<close>: the argument is the string that
  \<open>Math.random().toString(36)\<close> produced (\<open>0.\<close> followed by base-36 digits).
\<close>

definition generateId :: "string \<Rightarrow> string" where
  "generateId random36 = take 13 (drop 2 random36)"

subsection \<open>The operations\<close>

text \<open>
  Each operation runs as one uninterrupted step: the in-memory store resolves every
  \<open>await\<close> at once. \<open>now\<close> is the reading of \<open>performance.now()\<close> the operation takes,
  the \<open>int\<close> arguments are its readings of \<open>new Date()\<close>, in the order taken.
\<close>

definition createTimer ::
  "TimerCreateRequest \<Rightarrow> string \<Rightarrow> real \<Rightarrow> int \<Rightarrow> int \<Rightarrow> World \<Rightarrow> (error + string) \<times> World" where
  "createTimer request random36 now date1 date2 w =
     (let i = generateId random36
      in case parseDuration (duration request) of
           Inl e \<Rightarrow> (Inl e, w)
         | Inr d \<Rightarrow>
             (case new_object
                     \<lparr>timer_id = i, name = req_name request, durationMs = d,
                      startMonotonicMs = now, paused = False, remainingMs = d,
                      createdAt = date1, status = RUNNING\<rparr> w of
                (a, w1) \<Rightarrow>
                  (let w2 = store_put a w1
                   in case new_AbortController w2 of
                        (signal, w3) \<Rightarrow>
                          (let w4 = scheduler_schedule i d (CompleteTimer i) signal w3;
                               w5 = eventBus_emit
                                      \<lparr>ev_type = TIMER_CREATED, ev_id = i,
                                       ev_name = req_name request, timestamp = date2\<rparr> w4
                           in (Inr i, w5)))))"

definition getTimer :: "string \<Rightarrow> real \<Rightarrow> World \<Rightarrow> nat option \<times> World" where
  "getTimer i now w =
     (case store_get i w of
        (None, w1) \<Rightarrow> (None, w1)
      | (Some a, w1) \<Rightarrow>
          (if status (heap w1 ! a) = RUNNING \<and> \<not> paused (heap w1 ! a)
           then (Some a,
                 assign a (\<lambda>t. t\<lparr>remainingMs :=
                                   max 0 (durationMs t - (now - startMonotonicMs t))\<rparr>) w1)
           else (Some a, w1)))"

definition pauseTimer :: "string \<Rightarrow> real \<Rightarrow> int \<Rightarrow> World \<Rightarrow> World" where
  "pauseTimer i now date w =
     (case store_get i w of
        (None, w1) \<Rightarrow> w1
      | (Some a, w1) \<Rightarrow>
          (if status (heap w1 ! a) \<noteq> RUNNING \<or> paused (heap w1 ! a) then w1
           else
             (let w2 = assign a (\<lambda>t. t\<lparr>remainingMs :=
                                         max 0 (durationMs t - (now - startMonotonicMs t)),
                                       paused := True, status := PAUSED\<rparr>) w1;
                  w3 = store_put a w2;
                  w4 = scheduler_cancel i w3
              in eventBus_emit
                   \<lparr>ev_type = TIMER_PAUSED, ev_id = i, ev_name = name (heap w4 ! a),
                    timestamp = date\<rparr> w4)))"

definition resumeTimer :: "string \<Rightarrow> real \<Rightarrow> int \<Rightarrow> World \<Rightarrow> World" where
  "resumeTimer i now date w =
     (case store_get i w of
        (None, w1) \<Rightarrow> w1
      | (Some a, w1) \<Rightarrow>
          (if status (heap w1 ! a) \<noteq> PAUSED then w1
           else
             (let w2 = assign a (\<lambda>t. t\<lparr>startMonotonicMs := now, durationMs := remainingMs t,
                                       paused := False, status := RUNNING\<rparr>) w1;
                  w3 = store_put a w2
              in case new_AbortController w3 of
                   (signal, w4) \<Rightarrow>
                     (let w5 = scheduler_schedule i (remainingMs (heap w4 ! a))
                                 (CompleteTimer i) signal w4
                      in eventBus_emit
                           \<lparr>ev_type = TIMER_RESUMED, ev_id = i, ev_name = name (heap w5 ! a),
                            timestamp = date\<rparr> w5))))"

definition cancelTimer :: "string \<Rightarrow> int \<Rightarrow> World \<Rightarrow> World" where
  "cancelTimer i date w =
     (case store_get i w of
        (None, w1) \<Rightarrow> w1
      | (Some a, w1) \<Rightarrow>
          (if status (heap w1 ! a) = COMPLETED \<or> status (heap w1 ! a) = CANCELED then w1
           else
             (let w2 = assign a (\<lambda>t. t\<lparr>status := CANCELED\<rparr>) w1;
                  w3 = store_put a w2;
                  w4 = scheduler_cancel i w3
              in eventBus_emit
                   \<lparr>ev_type = TIMER_CANCELED, ev_id = i, ev_name = name (heap w4 ! a),
                    timestamp = date\<rparr> w4)))"

definition listTimers :: "World \<Rightarrow> nat list \<times> World" where
  "listTimers w = store_list w"

definition completeTimer :: "string \<Rightarrow> int \<Rightarrow> World \<Rightarrow> World" where
  "completeTimer i date w =
     (case store_get i w of
        (None, w1) \<Rightarrow> w1
      | (Some a, w1) \<Rightarrow>
          (if status (heap w1 ! a) = COMPLETED then w1
           else
             (let w2 = assign a (\<lambda>t. t\<lparr>status := COMPLETED, remainingMs := 0\<rparr>) w1;
                  w3 = store_put a w2
              in eventBus_emit
                   \<lparr>ev_type = TIMER_COMPLETED, ev_id = i, ev_name = name (heap w3 ! a),
                    timestamp = date\<rparr> w3)))"

subsection \<open>A wake-up whose sleep resolves\<close>

definition run_callback :: "Callback \<Rightarrow> int \<Rightarrow> World \<Rightarrow> World" where
  "run_callback cb date w = (case cb of CompleteTimer i \<Rightarrow> completeTimer i date w)"

text \<open>
  The rest of \<open>schedule\<close> once \<open>sleep\<close> has resolved: the callback runs unless the
  scheduler's own controller is aborted, then \<open>finally\<close> deletes the id.
\<close>

definition fire :: "Wakeup \<Rightarrow> int \<Rightarrow> World \<Rightarrow> World" where
  "fire k date w =
     (let w1 = w\<lparr>sleeping := remove1 k (sleeping w)\<rparr>;
          w2 = (if \<not> controllers w1 ! wk_ctrl k then run_callback (wk_callback k) date w1
                else w1)
      in w2\<lparr>scheduledTimers := AList.delete (wk_id k) (scheduledTimers w2)\<rparr>)"

subsection \<open>POST /timers (api/timer-routes.ts, api/schemas.ts)\<close>

text \<open>
  \<open>CreateTimerSchema\<close>: an optional name of at most 64 characters and a duration that
  is a non-empty string, a positive number or an object with a positive \<open>ms\<close>.
\<close>

definition CreateTimerSchema_parse :: "TimerCreateRequest \<Rightarrow> error + TimerCreateRequest" where
  "CreateTimerSchema_parse body =
     (if (case req_name body of None \<Rightarrow> True | Some n \<Rightarrow> length n \<le> 64) \<and>
         (case duration body of
            DStr s \<Rightarrow> 1 \<le> length s
          | DNum n \<Rightarrow> 0 < n
          | DMs n \<Rightarrow> 0 < n)
      then Inr body else Inl ZodError)"

definition post_timers ::
  "TimerCreateRequest \<Rightarrow> string \<Rightarrow> real \<Rightarrow> int \<Rightarrow> int \<Rightarrow> World \<Rightarrow> (error + string) \<times> World" where
  "post_timers body random36 now date1 date2 w =
     (case CreateTimerSchema_parse body of
        Inl e \<Rightarrow> (Inl e, w)
      | Inr validatedData \<Rightarrow> createTimer validatedData random36 now date1 date2 w)"

section \<open>Invariants and derived notions\<close>

text \<open>
  Every reference held by the store points to an allocated object whose \<open>id\<close> is the
  key it is filed under, and a Running record never has its \<open>paused\<close> flag set.
  The empty world satisfies this and every operation of the service keeps it.
\<close>

definition wf_store :: "World \<Rightarrow> bool" where
  "wf_store w =
     (\<forall>(k, a) \<in> set (timers w).
        a < length (heap w) \<and> timer_id (heap w ! a) = k \<and>
        (status (heap w ! a) = RUNNING \<longrightarrow> \<not> paused (heap w ! a)))"

text \<open>
  A run of pause/resume cycles on one timer: each entry gives the monotonic time and
  the date of the pause, then those of the resume.
\<close>

fun pause_resume_cycles :: "string \<Rightarrow> (real \<times> int \<times> real \<times> int) list \<Rightarrow> World \<Rightarrow> World" where
  "pause_resume_cycles i [] w = w"
| "pause_resume_cycles i ((t1, d1, t2, d2) # cs) w =
     pause_resume_cycles i cs (resumeTimer i t2 d2 (pauseTimer i t1 d1 w))"

text \<open>
  The worlds the running system can be in: it starts empty, and each step is a call of
  the service, a wake-up whose sleep resolves, the continuation of a rejected sleep,
  a shutdown of the scheduler, or an abort of some existing controller from outside.
\<close>

inductive reachable :: "World \<Rightarrow> bool" where
  start: "reachable init_world"
| create: "reachable w \<Longrightarrow> reachable (snd (createTimer request random36 now date1 date2 w))"
| get: "reachable w \<Longrightarrow> reachable (snd (getTimer i now w))"
| pause: "reachable w \<Longrightarrow> reachable (pauseTimer i now date w)"
| resume: "reachable w \<Longrightarrow> reachable (resumeTimer i now date w)"
| cancel: "reachable w \<Longrightarrow> reachable (cancelTimer i date w)"
| list: "reachable w \<Longrightarrow> reachable (snd (listTimers w))"
| wake: "reachable w \<Longrightarrow> k \<in> set (sleeping w) \<Longrightarrow> reachable (fire k date w)"
| settled: "reachable w \<Longrightarrow> k \<in> set (rejected w) \<Longrightarrow> reachable (settle k w)"
| shutdown: "reachable w \<Longrightarrow> reachable (scheduler_shutdown w)"
| aborted: "reachable w \<Longrightarrow> c < length (controllers w) \<Longrightarrow> reachable (abort c w)"

subsection \<open>A sample run\<close>

text \<open>
  A ten-second timer named tea is created at monotonic time 0 with the random draw
  \<open>0.abc\<close>; it is then paused after four seconds, or canceled, or both.
\<close>

definition tea_request :: TimerCreateRequest where
  "tea_request = \<lparr>req_name = Some ''tea'', duration = DNum 10000\<rparr>"

definition tea_running :: Timer where
  "tea_running =
     \<lparr>timer_id = ''abc'', name = Some ''tea'', durationMs = 10000, startMonotonicMs = 0,
      paused = False, remainingMs = 10000, createdAt = 1000, status = RUNNING\<rparr>"

definition world_running :: World where
  "world_running = snd (createTimer tea_request ''0.abc'' 0 1000 1001 init_world)"

definition world_paused :: World where
  "world_paused = pauseTimer ''abc'' 4000 5000 world_running"

definition world_canceled :: World where
  "world_canceled = cancelTimer ''abc'' 6000 world_running"

definition world_paused_canceled :: World where
  "world_paused_canceled = cancelTimer ''abc'' 6000 world_paused"

text \<open>
  The world inside the sample \<open>createTimer\<close> at the moment it calls \<open>schedule\<close>: the
  record is stored, and controller 0 is the one whose signal \<open>createTimer\<close> passes.
\<close>

definition world_before_schedule :: World where
  "world_before_schedule =
     init_world\<lparr>heap := [tea_running, tea_running], timers := [(''abc'', 1)],
                controllers := [False]\<rparr>"

definition tea_wakeup :: Wakeup where
  "tea_wakeup = \<lparr>wk_id = ''abc'', dueInMs = 10000, wk_ctrl = 1,
                  wk_callback = CompleteTimer ''abc''\<rparr>"

text \<open>
  A second sample run, in which the random draw repeats. The second \<open>createTimer\<close>
  supersedes the first wake-up; the continuation of the superseded \<open>schedule\<close> call
  then runs its \<open>finally\<close>; afterwards the timer is canceled.
\<close>

definition second_wakeup :: Wakeup where
  "second_wakeup = \<lparr>wk_id = ''abc'', dueInMs = 10000, wk_ctrl = 3,
                     wk_callback = CompleteTimer ''abc''\<rparr>"

definition world_recreated :: World where
  "world_recreated = snd (createTimer tea_request ''0.abc'' 100 2000 2001 world_running)"

definition world_orphaned :: World where
  "world_orphaned = cancelTimer ''abc'' 3000 (settle tea_wakeup world_recreated)"

section \<open>Store lemmas\<close>

lemma map_of_stored:
  "map_of (stored w) i = map_option (\<lambda>a. heap w ! a) (map_of (timers w) i)"
  by (simp add: stored_def map_of_map)

lemma wf_store_lookup:
  assumes "wf_store w" and "map_of (timers w) i = Some a"
  shows "a < length (heap w)" and "timer_id (heap w ! a) = i"
    and "status (heap w ! a) = RUNNING \<Longrightarrow> \<not> paused (heap w ! a)"
  using assms map_of_SomeD [OF assms(2)] by (auto simp: wf_store_def)

lemma stored_heap_ext:
  assumes "wf_store w" and "timers w' = timers w"
    and "\<And>a. a < length (heap w) \<Longrightarrow> heap w' ! a = heap w ! a"
  shows "stored w' = stored w"
  using assms by (auto simp: stored_def wf_store_def)

lemma map_update_value:
  "map (\<lambda>(k, a). (k, f a)) (AList.update i v xs) =
     AList.update i (f v) (map (\<lambda>(k, a). (k, f a)) xs)"
  by (induction xs) auto

lemma stored_update:
  assumes "wf_store w" and "timers w' = AList.update i b (timers w)"
    and "\<And>a. a < length (heap w) \<Longrightarrow> heap w' ! a = heap w ! a"
  shows "stored w' = AList.update i (heap w' ! b) (stored w)"
proof -
  have eq: "map (\<lambda>(k, a). (k, heap w' ! a)) (timers w) = stored w"
    using assms(1,3) by (auto simp: stored_def wf_store_def)
  have "stored w' = map (\<lambda>(k, a). (k, heap w' ! a)) (AList.update i b (timers w))"
    by (simp add: stored_def assms(2))
  also have "\<dots> = AList.update i (heap w' ! b) (map (\<lambda>(k, a). (k, heap w' ! a)) (timers w))"
    by (rule map_update_value)
  finally show ?thesis by (simp only: eq)
qed

lemma set_update_cases:
  "(k, a) \<in> set (AList.update i b xs) \<Longrightarrow> (k, a) = (i, b) \<or> (k, a) \<in> set xs"
  by (induction xs) (auto split: if_splits)

lemma wf_store_heap_ext:
  assumes "wf_store w" and "timers w' = timers w"
    and "length (heap w) \<le> length (heap w')"
    and "\<And>a. a < length (heap w) \<Longrightarrow> heap w' ! a = heap w ! a"
  shows "wf_store w'"
  using assms by (fastforce simp: wf_store_def)

lemma wf_store_update:
  assumes "wf_store w" and "timers w' = AList.update i b (timers w)"
    and "length (heap w) \<le> length (heap w')"
    and "\<And>a. a < length (heap w) \<Longrightarrow> heap w' ! a = heap w ! a"
    and "b < length (heap w')" and "timer_id (heap w' ! b) = i"
    and "status (heap w' ! b) = RUNNING \<Longrightarrow> \<not> paused (heap w' ! b)"
  shows "wf_store w'"
  unfolding wf_store_def
proof (intro ballI, clarify)
  fix k a assume "(k, a) \<in> set (timers w')"
  then consider "(k, a) = (i, b)" | "(k, a) \<in> set (timers w)"
    using set_update_cases assms(2) by metis
  then show "a < length (heap w') \<and> timer_id (heap w' ! a) = k \<and>
        (status (heap w' ! a) = RUNNING \<longrightarrow> \<not> paused (heap w' ! a))"
  proof cases
    case 1
    then show ?thesis using assms(5,6,7) by auto
  next
    case 2
    then have "a < length (heap w) \<and> timer_id (heap w ! a) = k \<and>
        (status (heap w ! a) = RUNNING \<longrightarrow> \<not> paused (heap w ! a))"
      using assms(1) by (auto simp: wf_store_def)
    then show ?thesis using assms(3,4) by auto
  qed
qed

lemma store_get_None: "map_of (timers w) i = None \<Longrightarrow> store_get i w = (None, w)"
  by (simp add: store_get_def)

lemma store_get_Some:
  "map_of (timers w) i = Some a \<Longrightarrow>
   store_get i w = (Some (length (heap w)), w\<lparr>heap := heap w @ [heap w ! a]\<rparr>)"
  by (simp add: store_get_def new_object_def)

section \<open>The scheduler leaves objects, store and events alone\<close>

lemma abort_frame [simp]:
  "heap (abort c w) = heap w" "timers (abort c w) = timers w" "emitted (abort c w) = emitted w"
  by (simp_all add: abort_def)

lemma scheduler_cancel_frame [simp]:
  "heap (scheduler_cancel i w) = heap w" "timers (scheduler_cancel i w) = timers w"
  "emitted (scheduler_cancel i w) = emitted w"
  by (simp_all add: scheduler_cancel_def Let_def split: option.splits)

lemma scheduler_schedule_frame [simp]:
  "heap (scheduler_schedule i due cb sg w) = heap w"
  "timers (scheduler_schedule i due cb sg w) = timers w"
  "emitted (scheduler_schedule i due cb sg w) = emitted w"
  by (simp_all add: scheduler_schedule_def new_AbortController_def Let_def)

section \<open>The operations, branch by branch\<close>

lemma completeTimer_missing:
  "map_of (timers w) i = None \<Longrightarrow> completeTimer i date w = w"
  by (simp add: completeTimer_def store_get_None)

lemma completeTimer_completed:
  "map_of (timers w) i = Some a \<Longrightarrow> status (heap w ! a) = COMPLETED \<Longrightarrow>
   completeTimer i date w = w\<lparr>heap := heap w @ [heap w ! a]\<rparr>"
  by (simp add: completeTimer_def store_get_Some)

lemma completeTimer_acts:
  "map_of (timers w) i = Some a \<Longrightarrow> status (heap w ! a) \<noteq> COMPLETED \<Longrightarrow>
   completeTimer i date w =
     w\<lparr>heap := heap w @ [(heap w ! a)\<lparr>status := COMPLETED, remainingMs := 0\<rparr>,
                          (heap w ! a)\<lparr>status := COMPLETED, remainingMs := 0\<rparr>],
       timers := AList.update (timer_id (heap w ! a)) (Suc (length (heap w))) (timers w),
       emitted := emitted w @
         [\<lparr>ev_type = TIMER_COMPLETED, ev_id = i, ev_name = name (heap w ! a),
           timestamp = date\<rparr>]\<rparr>"
  by (simp add: completeTimer_def store_get_Some Let_def assign_def store_put_def
      new_object_def eventBus_emit_def)

lemma cancelTimer_missing:
  "map_of (timers w) i = None \<Longrightarrow> cancelTimer i date w = w"
  by (simp add: cancelTimer_def store_get_None)

lemma cancelTimer_terminal:
  "map_of (timers w) i = Some a \<Longrightarrow>
   status (heap w ! a) = COMPLETED \<or> status (heap w ! a) = CANCELED \<Longrightarrow>
   cancelTimer i date w = w\<lparr>heap := heap w @ [heap w ! a]\<rparr>"
  by (auto simp add: cancelTimer_def store_get_Some)

lemma cancelTimer_acts:
  "map_of (timers w) i = Some a \<Longrightarrow>
   status (heap w ! a) \<noteq> COMPLETED \<Longrightarrow> status (heap w ! a) \<noteq> CANCELED \<Longrightarrow>
   cancelTimer i date w =
     eventBus_emit
       \<lparr>ev_type = TIMER_CANCELED, ev_id = i, ev_name = name (heap w ! a), timestamp = date\<rparr>
       (scheduler_cancel i
          (w\<lparr>heap := heap w @ [(heap w ! a)\<lparr>status := CANCELED\<rparr>,
                               (heap w ! a)\<lparr>status := CANCELED\<rparr>],
             timers := AList.update (timer_id (heap w ! a)) (Suc (length (heap w)))
                         (timers w)\<rparr>))"
  by (simp add: cancelTimer_def store_get_Some Let_def assign_def store_put_def
      new_object_def)

lemma pauseTimer_missing:
  "map_of (timers w) i = None \<Longrightarrow> pauseTimer i now date w = w"
  by (simp add: pauseTimer_def store_get_None)

lemma pauseTimer_guard:
  "map_of (timers w) i = Some a \<Longrightarrow>
   status (heap w ! a) \<noteq> RUNNING \<or> paused (heap w ! a) \<Longrightarrow>
   pauseTimer i now date w = w\<lparr>heap := heap w @ [heap w ! a]\<rparr>"
  by (auto simp add: pauseTimer_def store_get_Some)

lemma pauseTimer_acts:
  "map_of (timers w) i = Some a \<Longrightarrow>
   status (heap w ! a) = RUNNING \<Longrightarrow> \<not> paused (heap w ! a) \<Longrightarrow>
   t' = (heap w ! a)\<lparr>remainingMs :=
            max 0 (durationMs (heap w ! a) - (now - startMonotonicMs (heap w ! a))),
          paused := True, status := PAUSED\<rparr> \<Longrightarrow>
   pauseTimer i now date w =
     eventBus_emit
       \<lparr>ev_type = TIMER_PAUSED, ev_id = i, ev_name = name (heap w ! a), timestamp = date\<rparr>
       (scheduler_cancel i
          (w\<lparr>heap := heap w @ [t', t'],
             timers := AList.update (timer_id (heap w ! a)) (Suc (length (heap w)))
                         (timers w)\<rparr>))"
  by (simp add: pauseTimer_def store_get_Some Let_def assign_def store_put_def
      new_object_def)

lemma resumeTimer_missing:
  "map_of (timers w) i = None \<Longrightarrow> resumeTimer i now date w = w"
  by (simp add: resumeTimer_def store_get_None)

lemma resumeTimer_guard:
  "map_of (timers w) i = Some a \<Longrightarrow> status (heap w ! a) \<noteq> PAUSED \<Longrightarrow>
   resumeTimer i now date w = w\<lparr>heap := heap w @ [heap w ! a]\<rparr>"
  by (simp add: resumeTimer_def store_get_Some)

lemma resumeTimer_acts:
  "map_of (timers w) i = Some a \<Longrightarrow> status (heap w ! a) = PAUSED \<Longrightarrow>
   t' = (heap w ! a)\<lparr>startMonotonicMs := now, durationMs := remainingMs (heap w ! a),
          paused := False, status := RUNNING\<rparr> \<Longrightarrow>
   w' = w\<lparr>heap := heap w @ [t', t'],
          timers := AList.update (timer_id (heap w ! a)) (Suc (length (heap w))) (timers w)\<rparr> \<Longrightarrow>
   resumeTimer i now date w =
     eventBus_emit
       \<lparr>ev_type = TIMER_RESUMED, ev_id = i, ev_name = name (heap w ! a), timestamp = date\<rparr>
       (scheduler_schedule i (remainingMs (heap w ! a)) (CompleteTimer i)
          (length (controllers w))
          (w'\<lparr>controllers := controllers w @ [False]\<rparr>))"
  by (simp add: resumeTimer_def store_get_Some Let_def assign_def store_put_def
      new_object_def new_AbortController_def)

lemma getTimer_missing:
  "map_of (timers w) i = None \<Longrightarrow> getTimer i now w = (None, w)"
  by (simp add: getTimer_def store_get_None)

lemma getTimer_found:
  "map_of (timers w) i = Some a \<Longrightarrow>
   getTimer i now w =
     (Some (length (heap w)),
      w\<lparr>heap := heap w @
           [if status (heap w ! a) = RUNNING \<and> \<not> paused (heap w ! a)
            then (heap w ! a)\<lparr>remainingMs :=
                   max 0 (durationMs (heap w ! a) - (now - startMonotonicMs (heap w ! a)))\<rparr>
            else heap w ! a]\<rparr>)"
  by (simp add: getTimer_def store_get_Some assign_def)

lemma createTimer_ok:
  "parseDuration (duration request) = Inr d \<Longrightarrow>
   t = \<lparr>timer_id = generateId random36, name = req_name request, durationMs = d,
        startMonotonicMs = now, paused = False, remainingMs = d, createdAt = date1,
        status = RUNNING\<rparr> \<Longrightarrow>
   w' = w\<lparr>heap := heap w @ [t, t],
          timers := AList.update (generateId random36) (Suc (length (heap w))) (timers w),
          controllers := controllers w @ [False]\<rparr> \<Longrightarrow>
   createTimer request random36 now date1 date2 w =
     (Inr (generateId random36),
      eventBus_emit
        \<lparr>ev_type = TIMER_CREATED, ev_id = generateId random36, ev_name = req_name request,
         timestamp = date2\<rparr>
        (scheduler_schedule (generateId random36) d (CompleteTimer (generateId random36))
           (length (controllers w)) w'))"
  by (simp add: createTimer_def Let_def store_put_def new_object_def new_AbortController_def)

lemma createTimer_error:
  "parseDuration (duration request) = Inl e \<Longrightarrow>
   createTimer request random36 now date1 date2 w = (Inl e, w)"
  by (simp add: createTimer_def)

section \<open>What each operation does to the stored records and to the event log\<close>

lemma stored_cong:
  "heap w' = heap w \<Longrightarrow> timers w' = timers w \<Longrightarrow> stored w' = stored w"
  by (simp add: stored_def)

lemma wf_store_cong:
  "heap w' = heap w \<Longrightarrow> timers w' = timers w \<Longrightarrow> wf_store w' = wf_store w"
  by (simp add: wf_store_def)

lemma stored_copy:
  "wf_store w \<Longrightarrow> stored (w\<lparr>heap := heap w @ ts\<rparr>) = stored w"
  by (rule stored_heap_ext) (simp_all add: nth_append)

lemma wf_store_copy:
  "wf_store w \<Longrightarrow> wf_store (w\<lparr>heap := heap w @ ts\<rparr>)"
  by (rule wf_store_heap_ext [where w = w]) (simp_all add: nth_append)

text \<open>The read-modify-write pattern shared by pause, resume, cancel and completion.\<close>

lemma put_back:
  assumes wf: "wf_store w" and look: "map_of (timers w) i = Some a"
    and h: "heap w' = heap w @ [t', t']"
    and t: "timers w' = AList.update (timer_id (heap w ! a)) (Suc (length (heap w))) (timers w)"
    and id: "timer_id t' = timer_id (heap w ! a)"
    and run: "status t' = RUNNING \<Longrightarrow> \<not> paused t'"
  shows "stored w' = AList.update i t' (stored w)" and "wf_store w'"
proof -
  have key: "timer_id (heap w ! a) = i"
    using wf look by (rule wf_store_lookup)
  have old: "\<And>b. b < length (heap w) \<Longrightarrow> heap w' ! b = heap w ! b"
    by (simp add: h nth_append)
  have new: "heap w' ! Suc (length (heap w)) = t'"
    by (simp add: h nth_append)
  show "stored w' = AList.update i t' (stored w)"
    using stored_update [OF wf t [unfolded key] old] by (simp add: new)
  show "wf_store w'"
    using wf t [unfolded key]
  proof (rule wf_store_update)
    show "length (heap w) \<le> length (heap w')" by (simp add: h)
    show "Suc (length (heap w)) < length (heap w')" by (simp add: h)
    show "timer_id (heap w' ! Suc (length (heap w))) = i" by (simp add: new id key)
    show "\<not> paused (heap w' ! Suc (length (heap w)))"
      if "status (heap w' ! Suc (length (heap w))) = RUNNING"
      using that run by (simp add: new)
  qed (rule old)
qed

lemma stored_emit [simp]: "stored (eventBus_emit e w) = stored w"
  by (simp add: stored_def eventBus_emit_def)

lemma wf_store_emit [simp]: "wf_store (eventBus_emit e w) = wf_store w"
  by (simp add: wf_store_def eventBus_emit_def)

lemma emitted_emit [simp]: "emitted (eventBus_emit e w) = emitted w @ [e]"
  by (simp add: eventBus_emit_def)

lemma stored_scheduler_cancel [simp]: "stored (scheduler_cancel i w) = stored w"
  by (rule stored_cong) simp_all

lemma wf_store_scheduler_cancel [simp]: "wf_store (scheduler_cancel i w) = wf_store w"
  by (rule wf_store_cong) simp_all

lemma stored_scheduler_schedule [simp]: "stored (scheduler_schedule i d cb sg w) = stored w"
  by (rule stored_cong) simp_all

lemma wf_store_scheduler_schedule [simp]:
  "wf_store (scheduler_schedule i d cb sg w) = wf_store w"
  by (rule wf_store_cong) simp_all

lemma stored_controllers [simp]: "stored (w\<lparr>controllers := cs\<rparr>) = stored w"
  by (simp add: stored_def)

lemma wf_store_controllers [simp]: "wf_store (w\<lparr>controllers := cs\<rparr>) = wf_store w"
  by (simp add: wf_store_def)

subsection \<open>completeTimer\<close>

lemma completeTimer_effect:
  assumes "wf_store w"
  shows "stored (completeTimer i date w) =
    (case map_of (stored w) i of
       None \<Rightarrow> stored w
     | Some t \<Rightarrow>
         if status t = COMPLETED then stored w
         else AList.update i (t\<lparr>status := COMPLETED, remainingMs := 0\<rparr>) (stored w)) \<and>
    emitted (completeTimer i date w) =
    (case map_of (stored w) i of
       None \<Rightarrow> emitted w
     | Some t \<Rightarrow>
         if status t = COMPLETED then emitted w
         else emitted w @
           [\<lparr>ev_type = TIMER_COMPLETED, ev_id = i, ev_name = name t, timestamp = date\<rparr>]) \<and>
    wf_store (completeTimer i date w)"
proof (cases "map_of (timers w) i")
  case None
  then show ?thesis using assms
    by (simp add: completeTimer_missing map_of_stored)
next
  case (Some a)
  show ?thesis
  proof (cases "status (heap w ! a) = COMPLETED")
    case True
    then show ?thesis using Some assms
      by (simp add: completeTimer_completed map_of_stored stored_copy wf_store_copy)
  next
    case False
    let ?t = "(heap w ! a)\<lparr>status := COMPLETED, remainingMs := 0\<rparr>"
    note eq = completeTimer_acts [OF Some False, of date]
    have "stored (completeTimer i date w) = AList.update i ?t (stored w)"
      and "wf_store (completeTimer i date w)"
      by (rule put_back [OF assms Some, where t' = ?t]; simp add: eq)+
    then show ?thesis using Some False
      by (simp add: map_of_stored eq)
  qed
qed

subsection \<open>cancelTimer\<close>

lemma cancelTimer_effect:
  assumes "wf_store w"
  shows "stored (cancelTimer i date w) =
    (case map_of (stored w) i of
       None \<Rightarrow> stored w
     | Some t \<Rightarrow>
         if status t = COMPLETED \<or> status t = CANCELED then stored w
         else AList.update i (t\<lparr>status := CANCELED\<rparr>) (stored w)) \<and>
    emitted (cancelTimer i date w) =
    (case map_of (stored w) i of
       None \<Rightarrow> emitted w
     | Some t \<Rightarrow>
         if status t = COMPLETED \<or> status t = CANCELED then emitted w
         else emitted w @
           [\<lparr>ev_type = TIMER_CANCELED, ev_id = i, ev_name = name t, timestamp = date\<rparr>]) \<and>
    wf_store (cancelTimer i date w)"
proof (cases "map_of (timers w) i")
  case None
  then show ?thesis using assms
    by (simp add: cancelTimer_missing map_of_stored)
next
  case (Some a)
  show ?thesis
  proof (cases "status (heap w ! a) = COMPLETED \<or> status (heap w ! a) = CANCELED")
    case True
    then show ?thesis using Some assms
      by (simp add: cancelTimer_terminal map_of_stored stored_copy wf_store_copy)
  next
    case False
    let ?t = "(heap w ! a)\<lparr>status := CANCELED\<rparr>"
    let ?w = "w\<lparr>heap := heap w @ [?t, ?t],
                timers := AList.update (timer_id (heap w ! a)) (Suc (length (heap w)))
                            (timers w)\<rparr>"
    from False have eq: "cancelTimer i date w =
        eventBus_emit \<lparr>ev_type = TIMER_CANCELED, ev_id = i, ev_name = name (heap w ! a),
                        timestamp = date\<rparr> (scheduler_cancel i ?w)"
      using cancelTimer_acts [OF Some, of date] by simp
    have "stored ?w = AList.update i ?t (stored w)" and "wf_store ?w"
      by (rule put_back [OF assms Some, where t' = ?t]; simp)+
    then show ?thesis using Some False
      by (simp add: map_of_stored eq)
  qed
qed

subsection \<open>pauseTimer\<close>

lemma pauseTimer_effect:
  assumes "wf_store w"
  shows "stored (pauseTimer i now date w) =
    (case map_of (stored w) i of
       None \<Rightarrow> stored w
     | Some t \<Rightarrow>
         if status t = RUNNING
         then AList.update i
                (t\<lparr>remainingMs := max 0 (durationMs t - (now - startMonotonicMs t)),
                   paused := True, status := PAUSED\<rparr>) (stored w)
         else stored w) \<and>
    emitted (pauseTimer i now date w) =
    (case map_of (stored w) i of
       None \<Rightarrow> emitted w
     | Some t \<Rightarrow>
         if status t = RUNNING
         then emitted w @
           [\<lparr>ev_type = TIMER_PAUSED, ev_id = i, ev_name = name t, timestamp = date\<rparr>]
         else emitted w) \<and>
    wf_store (pauseTimer i now date w)"
proof (cases "map_of (timers w) i")
  case None
  then show ?thesis using assms
    by (simp add: pauseTimer_missing map_of_stored)
next
  case (Some a)
  show ?thesis
  proof (cases "status (heap w ! a) = RUNNING")
    case False
    then show ?thesis using Some assms
      by (simp add: pauseTimer_guard map_of_stored stored_copy wf_store_copy)
  next
    case True
    then have np: "\<not> paused (heap w ! a)"
      using wf_store_lookup(3) [OF assms Some] by simp
    let ?t = "(heap w ! a)\<lparr>remainingMs :=
                 max 0 (durationMs (heap w ! a) - (now - startMonotonicMs (heap w ! a))),
               paused := True, status := PAUSED\<rparr>"
    let ?w = "w\<lparr>heap := heap w @ [?t, ?t],
                timers := AList.update (timer_id (heap w ! a)) (Suc (length (heap w)))
                            (timers w)\<rparr>"
    have eq: "pauseTimer i now date w =
        eventBus_emit \<lparr>ev_type = TIMER_PAUSED, ev_id = i, ev_name = name (heap w ! a),
                        timestamp = date\<rparr> (scheduler_cancel i ?w)"
      by (rule pauseTimer_acts [OF Some True np]) simp
    have "stored ?w = AList.update i ?t (stored w)" and "wf_store ?w"
      by (rule put_back [OF assms Some, where t' = ?t]; simp)+
    then show ?thesis using Some True
      by (simp add: map_of_stored eq)
  qed
qed

subsection \<open>resumeTimer\<close>

lemma resumeTimer_effect:
  assumes "wf_store w"
  shows "stored (resumeTimer i now date w) =
    (case map_of (stored w) i of
       None \<Rightarrow> stored w
     | Some t \<Rightarrow>
         if status t = PAUSED
         then AList.update i
                (t\<lparr>startMonotonicMs := now, durationMs := remainingMs t,
                   paused := False, status := RUNNING\<rparr>) (stored w)
         else stored w) \<and>
    emitted (resumeTimer i now date w) =
    (case map_of (stored w) i of
       None \<Rightarrow> emitted w
     | Some t \<Rightarrow>
         if status t = PAUSED
         then emitted w @
           [\<lparr>ev_type = TIMER_RESUMED, ev_id = i, ev_name = name t, timestamp = date\<rparr>]
         else emitted w) \<and>
    wf_store (resumeTimer i now date w)"
proof (cases "map_of (timers w) i")
  case None
  then show ?thesis using assms
    by (simp add: resumeTimer_missing map_of_stored)
next
  case (Some a)
  show ?thesis
  proof (cases "status (heap w ! a) = PAUSED")
    case False
    then show ?thesis using Some assms
      by (simp add: resumeTimer_guard map_of_stored stored_copy wf_store_copy)
  next
    case True
    let ?t = "(heap w ! a)\<lparr>startMonotonicMs := now, durationMs := remainingMs (heap w ! a),
               paused := False, status := RUNNING\<rparr>"
    let ?w = "w\<lparr>heap := heap w @ [?t, ?t],
                timers := AList.update (timer_id (heap w ! a)) (Suc (length (heap w)))
                            (timers w)\<rparr>"
    have eq: "resumeTimer i now date w =
        eventBus_emit \<lparr>ev_type = TIMER_RESUMED, ev_id = i, ev_name = name (heap w ! a),
                        timestamp = date\<rparr>
          (scheduler_schedule i (remainingMs (heap w ! a)) (CompleteTimer i)
             (length (controllers w)) (?w\<lparr>controllers := controllers w @ [False]\<rparr>))"
      by (rule resumeTimer_acts [OF Some True]) simp_all
    have "stored ?w = AList.update i ?t (stored w)" and "wf_store ?w"
      by (rule put_back [OF assms Some, where t' = ?t]; simp)+
    then show ?thesis using Some True
      by (simp add: map_of_stored eq)
  qed
qed

subsection \<open>createTimer\<close>

lemma createTimer_effect:
  assumes "wf_store w" and "parseDuration (duration request) = Inr d"
  shows "fst (createTimer request random36 now date1 date2 w) = Inr (generateId random36) \<and>
    stored (snd (createTimer request random36 now date1 date2 w)) =
      AList.update (generateId random36)
        \<lparr>timer_id = generateId random36, name = req_name request, durationMs = d,
         startMonotonicMs = now, paused = False, remainingMs = d, createdAt = date1,
         status = RUNNING\<rparr> (stored w) \<and>
    emitted (snd (createTimer request random36 now date1 date2 w)) =
      emitted w @ [\<lparr>ev_type = TIMER_CREATED, ev_id = generateId random36,
                     ev_name = req_name request, timestamp = date2\<rparr>] \<and>
    wf_store (snd (createTimer request random36 now date1 date2 w))"
proof -
  let ?t = "\<lparr>timer_id = generateId random36, name = req_name request, durationMs = d,
             startMonotonicMs = now, paused = False, remainingMs = d, createdAt = date1,
             status = RUNNING\<rparr>"
  let ?w = "w\<lparr>heap := heap w @ [?t, ?t],
              timers := AList.update (generateId random36) (Suc (length (heap w))) (timers w),
              controllers := controllers w @ [False]\<rparr>"
  note eq = createTimer_ok [OF assms(2) refl refl, of random36 now date1 date2 w]
  have old: "\<And>b. b < length (heap w) \<Longrightarrow> heap ?w ! b = heap w ! b"
    by (simp add: nth_append)
  have "stored ?w = AList.update (generateId random36) (heap ?w ! Suc (length (heap w))) (stored w)"
    by (rule stored_update [OF assms(1) _ old]) simp_all
  moreover have "wf_store ?w"
    by (rule wf_store_update [OF assms(1), where i = "generateId random36"
          and b = "Suc (length (heap w))"]) (simp_all add: nth_append)
  ultimately show ?thesis
    by (simp add: eq nth_append)
qed

subsection \<open>getTimer\<close>

lemma getTimer_effect:
  assumes "wf_store w" and "map_of (stored w) i = Some t"
  shows "\<exists>a w'. getTimer i now w = (Some a, w') \<and>
     heap w' ! a =
       (if status t = RUNNING
        then t\<lparr>remainingMs := max 0 (durationMs t - (now - startMonotonicMs t))\<rparr> else t) \<and>
     stored w' = stored w \<and> wf_store w' \<and> emitted w' = emitted w"
proof -
  from assms(2) obtain a where look: "map_of (timers w) i = Some a" and t: "t = heap w ! a"
    by (auto simp: map_of_stored)
  have "status t = RUNNING \<Longrightarrow> \<not> paused t"
    using wf_store_lookup(3) [OF assms(1) look] t by simp
  then show ?thesis using assms(1)
    by (auto simp: getTimer_found [OF look] t stored_copy wf_store_copy)
qed

lemma getTimer_absent:
  "map_of (stored w) i = None \<Longrightarrow> getTimer i now w = (None, w)"
  by (simp add: map_of_stored getTimer_missing)

subsection \<open>The parts of these facts, by name\<close>

lemmas pauseTimer_stored = pauseTimer_effect [THEN conjunct1]
lemmas pauseTimer_wf = pauseTimer_effect [THEN conjunct2, THEN conjunct2]
lemmas resumeTimer_stored = resumeTimer_effect [THEN conjunct1]
lemmas resumeTimer_wf = resumeTimer_effect [THEN conjunct2, THEN conjunct2]

lemmas cancelTimer_stored = cancelTimer_effect [THEN conjunct1]
lemmas cancelTimer_wf = cancelTimer_effect [THEN conjunct2, THEN conjunct2]
lemmas completeTimer_stored = completeTimer_effect [THEN conjunct1]
lemmas completeTimer_wf = completeTimer_effect [THEN conjunct2, THEN conjunct2]

section \<open>The sample run\<close>

lemma wf_store_init: "wf_store init_world"
  by (simp add: wf_store_def init_world_def)

lemma stored_init: "stored init_world = []"
  by (simp add: stored_def init_world_def)

lemma parse_tea: "parseDuration (duration tea_request) = Inr 10000"
  by (simp add: tea_request_def parseDuration_def)

lemma world_running_facts:
  "wf_store world_running" "stored world_running = [(''abc'', tea_running)]"
  using createTimer_effect [OF wf_store_init parse_tea, of "''0.abc''" 0 1000 1001]
  by (simp_all add: world_running_def stored_init generateId_def tea_running_def tea_request_def)

lemma world_paused_facts:
  "wf_store world_paused"
  "stored world_paused =
     [(''abc'', tea_running\<lparr>remainingMs := 6000, paused := True, status := PAUSED\<rparr>)]"
  using pauseTimer_effect [OF world_running_facts(1), of "''abc''" 4000 5000]
  by (simp_all add: world_paused_def world_running_facts(2) tea_running_def)

lemma world_canceled_facts:
  "wf_store world_canceled"
  "stored world_canceled = [(''abc'', tea_running\<lparr>status := CANCELED\<rparr>)]"
  using cancelTimer_effect [OF world_running_facts(1), of "''abc''" 6000]
  by (simp_all add: world_canceled_def world_running_facts(2) tea_running_def)

lemma world_paused_canceled_facts:
  "wf_store world_paused_canceled"
  "stored world_paused_canceled =
     [(''abc'', tea_running\<lparr>remainingMs := 6000, paused := True, status := CANCELED\<rparr>)]"
  using cancelTimer_effect [OF world_paused_facts(1), of "''abc''" 6000]
  by (simp_all add: world_paused_canceled_def world_paused_facts(2) tea_running_def)

section \<open>Guards and reads\<close>

text \<open>
  C7. Pause, resume and cancel on an id the store does not know, pause on a timer that
  is not Running, resume on a timer that is not Paused and cancel on a timer that is
  Completed or Canceled leave every stored record as it was and emit no event. The
  operations have no error result: they return the world, changed by nothing but the
  unreferenced copy \<open>store.get\<close> made.
\<close>

theorem status_guarded_noops:
  assumes "wf_store w"
  shows "((case map_of (stored w) i of None \<Rightarrow> True | Some t \<Rightarrow> status t \<noteq> RUNNING) \<longrightarrow>
            stored (pauseTimer i now date w) = stored w \<and>
            emitted (pauseTimer i now date w) = emitted w) \<and>
         ((case map_of (stored w) i of None \<Rightarrow> True | Some t \<Rightarrow> status t \<noteq> PAUSED) \<longrightarrow>
            stored (resumeTimer i now date w) = stored w \<and>
            emitted (resumeTimer i now date w) = emitted w) \<and>
         ((case map_of (stored w) i of None \<Rightarrow> True
           | Some t \<Rightarrow> status t = COMPLETED \<or> status t = CANCELED) \<longrightarrow>
            stored (cancelTimer i date w) = stored w \<and>
            emitted (cancelTimer i date w) = emitted w)"
  using pauseTimer_effect [OF assms, of i now date]
    resumeTimer_effect [OF assms, of i now date]
    cancelTimer_effect [OF assms, of i date]
  by (simp split: option.splits)

theorem status_guarded_noops_witness:
  "wf_store world_canceled \<and>
   map_of (stored world_canceled) ''zzz'' = None \<and>
   map_option status (map_of (stored world_canceled) ''abc'') = Some CANCELED \<and>
   stored (pauseTimer ''zzz'' 7000 8000 world_canceled) = stored world_canceled \<and>
   emitted (pauseTimer ''zzz'' 7000 8000 world_canceled) = emitted world_canceled \<and>
   stored (resumeTimer ''zzz'' 7000 8000 world_canceled) = stored world_canceled \<and>
   emitted (resumeTimer ''zzz'' 7000 8000 world_canceled) = emitted world_canceled \<and>
   stored (cancelTimer ''zzz'' 8000 world_canceled) = stored world_canceled \<and>
   emitted (cancelTimer ''zzz'' 8000 world_canceled) = emitted world_canceled \<and>
   stored (pauseTimer ''abc'' 7000 8000 world_canceled) = stored world_canceled \<and>
   emitted (pauseTimer ''abc'' 7000 8000 world_canceled) = emitted world_canceled \<and>
   stored (resumeTimer ''abc'' 7000 8000 world_canceled) = stored world_canceled \<and>
   emitted (resumeTimer ''abc'' 7000 8000 world_canceled) = emitted world_canceled \<and>
   stored (cancelTimer ''abc'' 8000 world_canceled) = stored world_canceled \<and>
   emitted (cancelTimer ''abc'' 8000 world_canceled) = emitted world_canceled"
  using status_guarded_noops [OF world_canceled_facts(1), of "''zzz''" 7000 8000]
    status_guarded_noops [OF world_canceled_facts(1), of "''abc''" 7000 8000]
  by (simp add: world_canceled_facts tea_running_def)

text \<open>
  C8. For a stored timer whose status is Running, \<open>getTimer\<close> returns an object that
  carries the stored fields with \<open>remainingMs\<close> replaced by
  \<open>max(0, durationMs - (now - startMonotonicMs))\<close>, and the store holds afterwards
  exactly the records it held before: the object written to is the copy that
  \<open>store.get\<close> returned, not the stored one.
\<close>

theorem getTimer_recomputes_on_a_copy:
  assumes "wf_store w" and "map_of (stored w) i = Some t" and "status t = RUNNING"
  shows "\<exists>a w'. getTimer i now w = (Some a, w') \<and>
           heap w' ! a =
             t\<lparr>remainingMs := max 0 (durationMs t - (now - startMonotonicMs t))\<rparr> \<and>
           stored w' = stored w \<and> timers w' = timers w \<and>
           take (length (heap w)) (heap w') = heap w"
proof -
  from assms(2) obtain b where look: "map_of (timers w) i = Some b" and t: "t = heap w ! b"
    by (auto simp: map_of_stored)
  have "\<not> paused t"
    using wf_store_lookup(3) [OF assms(1) look] t assms(3) by simp
  then show ?thesis using assms(1,3)
    by (simp add: getTimer_found [OF look] t stored_copy)
qed

theorem getTimer_recomputes_on_a_copy_witness:
  "wf_store world_running \<and> map_of (stored world_running) ''abc'' = Some tea_running \<and>
   status tea_running = RUNNING \<and>
   (\<exists>a w'. getTimer ''abc'' 4000 world_running = (Some a, w') \<and>
      heap w' ! a = tea_running\<lparr>remainingMs := 6000\<rparr> \<and>
      stored w' = [(''abc'', tea_running)])"
proof -
  have look: "map_of (stored world_running) ''abc'' = Some tea_running"
    by (simp add: world_running_facts)
  have run: "status tea_running = RUNNING"
    by (simp add: tea_running_def)
  show ?thesis
    using getTimer_recomputes_on_a_copy [OF world_running_facts(1) look run, of 4000] look run
    by (auto simp: world_running_facts tea_running_def)
qed

section \<open>Durations\<close>

lemma createTimer_lookup:
  assumes "parseDuration (duration request) = Inr d"
  shows "\<exists>w'. createTimer request random36 now date1 date2 w = (Inr (generateId random36), w') \<and>
           map_of (stored w') (generateId random36) =
             Some \<lparr>timer_id = generateId random36, name = req_name request, durationMs = d,
                   startMonotonicMs = now, paused = False, remainingMs = d,
                   createdAt = date1, status = RUNNING\<rparr>"
  by (simp add: createTimer_ok [OF assms refl refl] map_of_stored update_conv' nth_append
      eventBus_emit_def)

lemma totalMs_2h30m: "totalMs ''2h30m'' = 9000000"
  by (simp add: totalMs_def toLowerCase_def toLowerCase_char_def is_digit_def is_unit_def
      parseInt_def digit_value_def unit_ms_def)

lemma totalMs_0s: "totalMs ''0s'' = 0"
  by (simp add: totalMs_def toLowerCase_def toLowerCase_char_def is_digit_def is_unit_def
      parseInt_def digit_value_def unit_ms_def)

text \<open>
  C5. \<open>create\<close> with the duration \<open>"2h30m"\<close> stores a record with
  \<open>durationMs = 9000000\<close>, with \<open>{ms: 500}\<close> one with \<open>durationMs = 500\<close>, and with
  \<open>"0s"\<close> it fails with the invalid-duration error and leaves the world as it was.
\<close>

theorem createTimer_duration_examples:
  "(\<exists>w'. createTimer \<lparr>req_name = nm, duration = DStr ''2h30m''\<rparr> random36 now date1 date2 w =
            (Inr (generateId random36), w') \<and>
          map_option durationMs (map_of (stored w') (generateId random36)) = Some 9000000) \<and>
   (\<exists>w'. createTimer \<lparr>req_name = nm, duration = DMs 500\<rparr> random36 now date1 date2 w =
            (Inr (generateId random36), w') \<and>
          map_option durationMs (map_of (stored w') (generateId random36)) = Some 500) \<and>
   createTimer \<lparr>req_name = nm, duration = DStr ''0s''\<rparr> random36 now date1 date2 w =
     (Inl (InvalidDuration ''0s''), w)"
proof -
  have a: "parseDuration (duration \<lparr>req_name = nm, duration = DStr ''2h30m''\<rparr>) = Inr 9000000"
    by (simp add: parseDuration_def totalMs_2h30m)
  have b: "parseDuration (duration \<lparr>req_name = nm, duration = DMs 500\<rparr>) = Inr 500"
    by (simp add: parseDuration_def)
  have c: "parseDuration (duration \<lparr>req_name = nm, duration = DStr ''0s''\<rparr>) =
             Inl (InvalidDuration ''0s'')"
    by (simp add: parseDuration_def totalMs_0s)
  show ?thesis
    using createTimer_lookup [OF a, of random36 now date1 date2 w]
      createTimer_lookup [OF b, of random36 now date1 date2 w]
      createTimer_error [OF c, of random36 now date1 date2 w]
    by auto
qed

lemma regex_matches_unit:
  "(ds, u) \<in> set (regex_matches run s) \<Longrightarrow> is_unit u"
  by (induction s arbitrary: run) (auto split: if_splits)

lemma unit_ms_zero: "is_unit u \<Longrightarrow> unit_ms v u = 0 \<longleftrightarrow> v = 0"
  by (auto simp: is_unit_def unit_ms_def)

lemma foldl_total:
  "foldl (\<lambda>total (ds, u). total + unit_ms (parseInt ds) u) acc ms =
     acc + sum_list (map (\<lambda>(ds, u). unit_ms (parseInt ds) u) ms)"
  by (induction ms arbitrary: acc) (auto simp: add.assoc)

lemma totalMs_zero_iff:
  "totalMs s = 0 \<longleftrightarrow>
     (\<forall>(ds, u) \<in> set (regex_matches [] (toLowerCase s)). parseInt ds = 0)"
proof -
  have "unit_ms (parseInt ds) u = 0 \<longleftrightarrow> parseInt ds = 0"
    if "(ds, u) \<in> set (regex_matches [] (toLowerCase s))" for ds u
    using that by (intro unit_ms_zero regex_matches_unit)
  then have "(\<forall>(ds, u) \<in> set (regex_matches [] (toLowerCase s)). unit_ms (parseInt ds) u = 0) \<longleftrightarrow>
     (\<forall>(ds, u) \<in> set (regex_matches [] (toLowerCase s)). parseInt ds = 0)"
    by blast
  then show ?thesis
    by (simp add: totalMs_def foldl_total split_beta)
qed

text \<open>
  C3, as the code has it. \<open>createTimer\<close> rejects a string specification in which every
  \<open><integer><unit>\<close> token found has the value zero, in particular one in which no token
  is found: it fails with the invalid-duration error and the world stays as it was.
  A number or an \<open>{ms: N}\<close> value is handed through by \<open>parseDuration\<close> unchecked; a
  non-positive one is turned away before \<open>createTimer\<close> is reached, by the schema of the
  \<open>POST /timers\<close> route, with a validation error and no timer created.
\<close>

theorem createTimer_rejects_zero_total:
  "((\<forall>(ds, u) \<in> set (regex_matches [] (toLowerCase s)). parseInt ds = 0) \<longrightarrow>
      createTimer \<lparr>req_name = nm, duration = DStr s\<rparr> random36 now date1 date2 w =
        (Inl (InvalidDuration s), w)) \<and>
   parseDuration (DNum n) = Inr n \<and> parseDuration (DMs n) = Inr n \<and>
   (n \<le> 0 \<longrightarrow>
      post_timers \<lparr>req_name = nm, duration = DNum n\<rparr> random36 now date1 date2 w =
        (Inl ZodError, w) \<and>
      post_timers \<lparr>req_name = nm, duration = DMs n\<rparr> random36 now date1 date2 w =
        (Inl ZodError, w))"
proof -
  have "createTimer \<lparr>req_name = nm, duration = DStr s\<rparr> random36 now date1 date2 w =
        (Inl (InvalidDuration s), w)"
    if "\<forall>(ds, u) \<in> set (regex_matches [] (toLowerCase s)). parseInt ds = 0"
  proof (rule createTimer_error)
    from that have "totalMs s = 0" by (simp only: totalMs_zero_iff)
    then show "parseDuration (duration \<lparr>req_name = nm, duration = DStr s\<rparr>) =
        Inl (InvalidDuration s)"
      by (simp add: parseDuration_def)
  qed
  then show ?thesis
    by (simp add: parseDuration_def post_timers_def CreateTimerSchema_parse_def)
qed

lemma matches_0s: "regex_matches [] (toLowerCase ''0s'') = [(''0'', CHR ''s'')]"
  by (simp add: toLowerCase_def toLowerCase_char_def is_digit_def is_unit_def)

lemma matches_abc: "regex_matches [] (toLowerCase ''abc'') = []"
  by (simp add: toLowerCase_def toLowerCase_char_def is_digit_def is_unit_def)

theorem createTimer_rejects_zero_total_witness:
  "regex_matches [] (toLowerCase ''0s'') = [(''0'', CHR ''s'')] \<and> parseInt ''0'' = 0 \<and>
   createTimer \<lparr>req_name = None, duration = DStr ''0s''\<rparr> ''0.abc'' 0 1000 1001 init_world =
     (Inl (InvalidDuration ''0s''), init_world) \<and>
   regex_matches [] (toLowerCase ''abc'') = [] \<and>
   createTimer \<lparr>req_name = None, duration = DStr ''abc''\<rparr> ''0.abc'' 0 1000 1001 init_world =
     (Inl (InvalidDuration ''abc''), init_world) \<and>
   (-5 :: real) \<le> 0 \<and>
   post_timers \<lparr>req_name = None, duration = DNum (-5)\<rparr> ''0.abc'' 0 1000 1001 init_world =
     (Inl ZodError, init_world) \<and>
   post_timers \<lparr>req_name = None, duration = DMs (-5)\<rparr> ''0.abc'' 0 1000 1001 init_world =
     (Inl ZodError, init_world)"
  using createTimer_rejects_zero_total
          [of "''0s''" None "''0.abc''" 0 1000 1001 init_world "-5"]
    createTimer_rejects_zero_total
          [of "''abc''" None "''0.abc''" 0 1000 1001 init_world "-5"]
  by (simp add: matches_0s matches_abc parseInt_def digit_value_def)

text \<open>
  C3, as the claim has it, fails: \<open>createTimer\<close> accepts the number 0, the value
  \<open>{ms: -5}\<close> and the string \<open>"1.5h"\<close> (read as five hours), and stores a timer for each.
\<close>

lemma totalMs_1_5h: "totalMs ''1.5h'' = 18000000"
  by (simp add: totalMs_def toLowerCase_def toLowerCase_char_def is_digit_def is_unit_def
      parseInt_def digit_value_def unit_ms_def)

theorem createTimer_accepts_nonpositive:
  "fst (createTimer \<lparr>req_name = None, duration = DNum 0\<rparr> ''0.abc'' 0 1000 1001 init_world) =
     Inr ''abc'' \<and>
   map_option durationMs
     (map_of (stored (snd (createTimer \<lparr>req_name = None, duration = DNum 0\<rparr>
                             ''0.abc'' 0 1000 1001 init_world))) ''abc'') = Some 0 \<and>
   fst (createTimer \<lparr>req_name = None, duration = DMs (-5)\<rparr> ''0.abc'' 0 1000 1001 init_world) =
     Inr ''abc'' \<and>
   map_option durationMs
     (map_of (stored (snd (createTimer \<lparr>req_name = None, duration = DMs (-5)\<rparr>
                             ''0.abc'' 0 1000 1001 init_world))) ''abc'') = Some (-5) \<and>
   fst (createTimer \<lparr>req_name = None, duration = DStr ''1.5h''\<rparr> ''0.abc'' 0 1000 1001
          init_world) = Inr ''abc'' \<and>
   map_option durationMs
     (map_of (stored (snd (createTimer \<lparr>req_name = None, duration = DStr ''1.5h''\<rparr>
                             ''0.abc'' 0 1000 1001 init_world))) ''abc'') = Some 18000000"
proof -
  have a: "parseDuration (duration \<lparr>req_name = None, duration = DNum 0\<rparr>) = Inr 0"
    by (simp add: parseDuration_def)
  have b: "parseDuration (duration \<lparr>req_name = None, duration = DMs (-5)\<rparr>) = Inr (-5)"
    by (simp add: parseDuration_def)
  have c: "parseDuration (duration \<lparr>req_name = None, duration = DStr ''1.5h''\<rparr>) =
             Inr 18000000"
    by (simp add: parseDuration_def totalMs_1_5h)
  have id: "generateId ''0.abc'' = ''abc''"
    by (simp add: generateId_def)
  show ?thesis
    using createTimer_lookup [OF a, of "''0.abc''" 0 1000 1001 init_world]
      createTimer_lookup [OF b, of "''0.abc''" 0 1000 1001 init_world]
      createTimer_lookup [OF c, of "''0.abc''" 0 1000 1001 init_world]
    by (auto simp: id)
qed

section \<open>Identifiers\<close>

lemma update_fresh: "k \<notin> fst ` set xs \<Longrightarrow> AList.update k v xs = xs @ [(k, v)]"
  by (induction xs) auto

text \<open>
  C9, as the code has it. The id \<open>createTimer\<close> returns is the substring from index 2
  up to index 15 of the random draw's base-36 string, and the store is not consulted.
  When that string is not a key of the store, the id differs from every stored id and
  the new record is added behind the others. When it is a key, the keys stay as they
  are and the record filed under it is replaced by the new record, in place: the
  store afterwards is the old one with the new record written at that key, so a
  lookup of the id finds the new record and every other key keeps its record.
\<close>

theorem createTimer_id_from_draw:
  assumes "wf_store w" and "parseDuration (duration request) = Inr d"
  shows "fst (createTimer request random36 now date1 date2 w) =
           Inr (take 13 (drop 2 random36)) \<and>
         (generateId random36 \<notin> fst ` set (stored w) \<longrightarrow>
            stored (snd (createTimer request random36 now date1 date2 w)) =
              stored w @
                [(generateId random36,
                  \<lparr>timer_id = generateId random36, name = req_name request, durationMs = d,
                   startMonotonicMs = now, paused = False, remainingMs = d,
                   createdAt = date1, status = RUNNING\<rparr>)]) \<and>
         (generateId random36 \<in> fst ` set (stored w) \<longrightarrow>
            map fst (stored (snd (createTimer request random36 now date1 date2 w))) =
              map fst (stored w) \<and>
            stored (snd (createTimer request random36 now date1 date2 w)) =
              AList.update (generateId random36)
                \<lparr>timer_id = generateId random36, name = req_name request, durationMs = d,
                 startMonotonicMs = now, paused = False, remainingMs = d,
                 createdAt = date1, status = RUNNING\<rparr> (stored w) \<and>
            map_of (stored (snd (createTimer request random36 now date1 date2 w))) =
              (map_of (stored w))
                (generateId random36 \<mapsto>
                   \<lparr>timer_id = generateId random36, name = req_name request, durationMs = d,
                    startMonotonicMs = now, paused = False, remainingMs = d,
                    createdAt = date1, status = RUNNING\<rparr>))"
proof -
  note eff = createTimer_effect [OF assms, of random36 now date1 date2]
  have id: "fst (createTimer request random36 now date1 date2 w) =
      Inr (take 13 (drop 2 random36))"
    using eff by (simp add: generateId_def)
  have upd: "stored (snd (createTimer request random36 now date1 date2 w)) =
      AList.update (generateId random36)
        \<lparr>timer_id = generateId random36, name = req_name request, durationMs = d,
         startMonotonicMs = now, paused = False, remainingMs = d,
         createdAt = date1, status = RUNNING\<rparr> (stored w)"
    using eff by simp
  show ?thesis
    by (simp add: id upd update_fresh update_keys update_conv')
qed

theorem createTimer_id_from_draw_witness:
  "wf_store world_running \<and> parseDuration (duration tea_request) = Inr 10000 \<and>
   generateId ''0.xyz'' \<notin> fst ` set (stored world_running) \<and>
   fst (createTimer tea_request ''0.xyz'' 5000 6000 6001 world_running) = Inr ''xyz'' \<and>
   map fst (stored (snd (createTimer tea_request ''0.xyz'' 5000 6000 6001 world_running))) =
     [''abc'', ''xyz''] \<and>
   generateId ''0.abc'' \<in> fst ` set (stored world_running) \<and>
   stored world_running =
     [(''abc'', \<lparr>timer_id = ''abc'', name = Some ''tea'', durationMs = 10000,
                startMonotonicMs = 0, paused = False, remainingMs = 10000,
                createdAt = 1000, status = RUNNING\<rparr>)] \<and>
   stored (snd (createTimer tea_request ''0.abc'' 5000 6000 6001 world_running)) =
     [(''abc'', \<lparr>timer_id = ''abc'', name = Some ''tea'', durationMs = 10000,
                startMonotonicMs = 5000, paused = False, remainingMs = 10000,
                createdAt = 6000, status = RUNNING\<rparr>)]"
  using createTimer_id_from_draw [OF world_running_facts(1) parse_tea, of "''0.xyz''" 5000 6000 6001]
    createTimer_id_from_draw [OF world_running_facts(1) parse_tea, of "''0.abc''" 5000 6000 6001]
  by (simp add: world_running_facts generateId_def tea_running_def tea_request_def
      parseDuration_def)

text \<open>
  C9, as the claim has it, fails: a second \<open>createTimer\<close> whose random draw repeats the
  first one returns an id that the store already holds.
\<close>

theorem createTimer_repeats_id:
  "fst (createTimer tea_request ''0.abc'' 5000 6000 6001 world_running) = Inr ''abc'' \<and>
   ''abc'' \<in> fst ` set (stored world_running)"
  using createTimer_effect [OF world_running_facts(1) parse_tea, of "''0.abc''" 5000 6000 6001]
  by (simp add: world_running_facts generateId_def)

section \<open>Completion and terminal states\<close>

text \<open>
  What does hold of terminal records: a Completed record is left alone by every
  operation, and a Canceled one by pause, resume and cancel.
\<close>

lemma terminal_absorbing:
  assumes "wf_store w" and "map_of (stored w) i = Some t"
  shows "status t = COMPLETED \<or> status t = CANCELED \<Longrightarrow>
           stored (pauseTimer i now date w) = stored w \<and>
           stored (resumeTimer i now date w) = stored w \<and>
           stored (cancelTimer i date w) = stored w"
    and "status t = COMPLETED \<Longrightarrow> stored (completeTimer i date w) = stored w"
  using pauseTimer_effect [OF assms(1), of i now date]
    resumeTimer_effect [OF assms(1), of i now date]
    cancelTimer_effect [OF assms(1), of i date]
    completeTimer_effect [OF assms(1), of i date] assms(2)
  by auto

text \<open>
  C1. The completion callback is not a no-op on a record that is Canceled or Paused:
  \<open>completeTimer\<close> only looks for a missing record and for the status Completed. On the
  sample timer, canceled (or paused) before the callback arrives, it writes the status
  Completed and \<open>remainingMs = 0\<close> to the store and emits a \<open>completed\<close> event.
\<close>

theorem completeTimer_on_canceled_or_paused:
  "map_option status (map_of (stored world_canceled) ''abc'') = Some CANCELED \<and>
   stored (completeTimer ''abc'' 7000 world_canceled) =
     [(''abc'', tea_running\<lparr>remainingMs := 0, status := COMPLETED\<rparr>)] \<and>
   emitted (completeTimer ''abc'' 7000 world_canceled) =
     emitted world_canceled @
       [\<lparr>ev_type = TIMER_COMPLETED, ev_id = ''abc'', ev_name = Some ''tea'',
         timestamp = 7000\<rparr>] \<and>
   map_option status (map_of (stored world_paused) ''abc'') = Some PAUSED \<and>
   stored (completeTimer ''abc'' 7000 world_paused) =
     [(''abc'', tea_running\<lparr>paused := True, remainingMs := 0, status := COMPLETED\<rparr>)] \<and>
   emitted (completeTimer ''abc'' 7000 world_paused) =
     emitted world_paused @
       [\<lparr>ev_type = TIMER_COMPLETED, ev_id = ''abc'', ev_name = Some ''tea'',
         timestamp = 7000\<rparr>]"
  using completeTimer_effect [OF world_canceled_facts(1), of "''abc''" 7000]
    completeTimer_effect [OF world_paused_facts(1), of "''abc''" 7000]
  by (simp add: world_canceled_facts world_paused_facts tea_running_def)

text \<open>
  C2. Canceled is not absorbing under the completion callback: the sample timer, paused
  with six seconds left and then canceled, has its stored \<open>status\<close> and \<open>remainingMs\<close>
  overwritten by \<open>completeTimer\<close>.
\<close>

theorem completeTimer_mutates_canceled_record:
  "stored world_paused_canceled =
     [(''abc'', \<lparr>timer_id = ''abc'', name = Some ''tea'', durationMs = 10000,
                startMonotonicMs = 0, paused = True, remainingMs = 6000, createdAt = 1000,
                status = CANCELED\<rparr>)] \<and>
   stored (completeTimer ''abc'' 7000 world_paused_canceled) =
     [(''abc'', \<lparr>timer_id = ''abc'', name = Some ''tea'', durationMs = 10000,
                startMonotonicMs = 0, paused = True, remainingMs = 0, createdAt = 1000,
                status = COMPLETED\<rparr>)]"
  using completeTimer_effect [OF world_paused_canceled_facts(1), of "''abc''" 7000]
  by (simp add: world_paused_canceled_facts tea_running_def)

section \<open>Listing\<close>

lemma copy_all_spec:
  "\<forall>a \<in> set as. a < length (heap w) \<Longrightarrow>
   copy_all as w =
     ([length (heap w) ..< length (heap w) + length as],
      w\<lparr>heap := heap w @ map ((!) (heap w)) as\<rparr>)"
proof (induction as arbitrary: w)
  case Nil
  then show ?case by simp
next
  case (Cons a as)
  let ?n = "length (heap w)"
  let ?w = "w\<lparr>heap := heap w @ [heap w ! a]\<rparr>"
  have "\<forall>b \<in> set as. b < length (heap ?w)"
    using Cons.prems by auto
  from Cons.IH [OF this] have ih:
    "copy_all as ?w =
       ([Suc ?n ..< Suc ?n + length as],
        w\<lparr>heap := heap w @ heap w ! a # map ((!) (heap w @ [heap w ! a])) as\<rparr>)"
    by (simp del: upt_Suc)
  have same: "map ((!) (heap w @ [heap w ! a])) as = map ((!) (heap w)) as"
    using Cons.prems by (auto simp: nth_append)
  have upt: "[?n ..< ?n + length (a # as)] = ?n # [Suc ?n ..< Suc ?n + length as]"
    by (simp add: upt_conv_Cons del: upt_Suc)
  have "copy_all (a # as) w =
          (?n # [Suc ?n ..< Suc ?n + length as],
           w\<lparr>heap := heap w @ heap w ! a # map ((!) (heap w)) as\<rparr>)"
    using ih same by (simp add: new_object_def del: upt_Suc)
  then show ?case
    by (simp only: upt) simp
qed

lemma nth_appended: "map ((!) (xs @ ys)) [length xs ..< length xs + length ys] = ys"
  by (rule nth_equalityI) (simp_all add: nth_append)

text \<open>\<open>listTimers\<close> hands out copies of the records exactly as they are stored.\<close>

lemma listTimers_effect:
  assumes "wf_store w"
  shows "\<exists>bs w'. listTimers w = (bs, w') \<and> map ((!) (heap w')) bs = map snd (stored w) \<and>
           stored w' = stored w \<and> emitted w' = emitted w"
proof -
  have "\<forall>a \<in> set (map snd (timers w)). a < length (heap w)"
    using assms by (auto simp: wf_store_def)
  from copy_all_spec [OF this] show ?thesis
    using nth_appended [of "heap w" "map ((!) (heap w)) (map snd (timers w))"]
    by (simp add: listTimers_def store_list_def stored_copy [OF assms])
      (simp add: stored_def split_beta)
qed

text \<open>
  C4. \<open>listTimers\<close> reads no clock and recomputes nothing. For the sample timer, four
  seconds into its ten, it returns \<open>remainingMs = 10000\<close>, the value persisted at
  creation, where \<open>getTimer\<close> at the same instant returns 6000.
\<close>

theorem listTimers_returns_persisted_remainingMs:
  "map (\<lambda>b. remainingMs (heap (snd (listTimers world_running)) ! b))
     (fst (listTimers world_running)) = [10000] \<and>
   map (\<lambda>b. status (heap (snd (listTimers world_running)) ! b))
     (fst (listTimers world_running)) = [RUNNING] \<and>
   map_option (\<lambda>b. remainingMs (heap (snd (getTimer ''abc'' 4000 world_running)) ! b))
     (fst (getTimer ''abc'' 4000 world_running)) = Some 6000"
proof -
  have look: "map_of (stored world_running) ''abc'' = Some tea_running"
    by (simp add: world_running_facts)
  obtain bs w' where l: "listTimers world_running = (bs, w')"
    and r: "map ((!) (heap w')) bs = [tea_running]"
    using listTimers_effect [OF world_running_facts(1)] by (auto simp: world_running_facts)
  have "map (\<lambda>b. remainingMs (heap w' ! b)) bs = map remainingMs (map ((!) (heap w')) bs)"
    and "map (\<lambda>b. status (heap w' ! b)) bs = map status (map ((!) (heap w')) bs)"
    by simp_all
  then have "map (\<lambda>b. remainingMs (heap w' ! b)) bs = [10000]"
    and "map (\<lambda>b. status (heap w' ! b)) bs = [RUNNING]"
    by (simp_all only: r list.map) (simp_all add: tea_running_def)
  then show ?thesis
    using getTimer_effect [OF world_running_facts(1) look, of 4000]
    by (auto simp: l tea_running_def)
qed

section \<open>Pause and resume\<close>

text \<open>One pause followed by one resume, on a Running record.\<close>

lemma pause_then_resume:
  assumes "wf_store w" and "map_of (stored w) i = Some r" and "status r = RUNNING"
  shows "map_of (stored (pauseTimer i t1 d1 w)) i =
           Some (r\<lparr>remainingMs := max 0 (durationMs r - (t1 - startMonotonicMs r)),
                   paused := True, status := PAUSED\<rparr>)"
    and "map_of (stored (resumeTimer i t2 d2 (pauseTimer i t1 d1 w))) i =
           Some (r\<lparr>remainingMs := max 0 (durationMs r - (t1 - startMonotonicMs r)),
                   startMonotonicMs := t2,
                   durationMs := max 0 (durationMs r - (t1 - startMonotonicMs r)),
                   paused := False, status := RUNNING\<rparr>)"
    and "wf_store (resumeTimer i t2 d2 (pauseTimer i t1 d1 w))"
proof -
  let ?p = "r\<lparr>remainingMs := max 0 (durationMs r - (t1 - startMonotonicMs r)),
              paused := True, status := PAUSED\<rparr>"
  have wf1: "wf_store (pauseTimer i t1 d1 w)"
    using assms(1) by (rule pauseTimer_wf)
  show p: "map_of (stored (pauseTimer i t1 d1 w)) i = Some ?p"
    using assms by (simp add: pauseTimer_stored update_conv')
  show "map_of (stored (resumeTimer i t2 d2 (pauseTimer i t1 d1 w))) i =
           Some (r\<lparr>remainingMs := max 0 (durationMs r - (t1 - startMonotonicMs r)),
                   startMonotonicMs := t2,
                   durationMs := max 0 (durationMs r - (t1 - startMonotonicMs r)),
                   paused := False, status := RUNNING\<rparr>)"
    using p by (simp add: resumeTimer_stored [OF wf1] update_conv')
  show "wf_store (resumeTimer i t2 d2 (pauseTimer i t1 d1 w))"
    using wf1 by (rule resumeTimer_wf)
qed

lemma cycles_keep_running:
  assumes "wf_store w" and "map_of (stored w) i = Some r" and "status r = RUNNING"
  shows "wf_store (pause_resume_cycles i cs w) \<and>
         (\<exists>r'. map_of (stored (pause_resume_cycles i cs w)) i = Some r' \<and> status r' = RUNNING)"
  using assms
proof (induction cs arbitrary: w r)
  case Nil
  then show ?case by simp
next
  case (Cons c cs)
  obtain t1 d1 t2 d2 where c: "c = (t1, d1, t2, d2)"
    by (cases c) auto
  show ?case
    unfolding c pause_resume_cycles.simps
    by (rule Cons.IH [OF pause_then_resume(3) pause_then_resume(2)]) (use Cons.prems in simp_all)
qed

text \<open>
  C6. With the clock readings explicit: take a Running timer, let it go through any
  number of earlier pause/resume cycles, pause it at \<open>t1\<close> and resume it at \<open>t2\<close>. The
  pause stores the snapshot \<open>max(0, durationMs - (t1 - startMonotonicMs))\<close>, and
  \<open>getTimer\<close> at the instant of the resume returns a Running record whose recomputed
  \<open>remainingMs\<close> is exactly that snapshot.
\<close>

theorem pause_resume_preserves_remaining:
  assumes "wf_store w" and "map_of (stored w) i = Some t" and "status t = RUNNING"
  shows "\<exists>r p a w3.
           map_of (stored (pause_resume_cycles i cs w)) i = Some r \<and> status r = RUNNING \<and>
           map_of (stored (pauseTimer i t1 d1 (pause_resume_cycles i cs w))) i = Some p \<and>
           status p = PAUSED \<and>
           remainingMs p = max 0 (durationMs r - (t1 - startMonotonicMs r)) \<and>
           getTimer i t2
             (resumeTimer i t2 d2 (pauseTimer i t1 d1 (pause_resume_cycles i cs w))) =
             (Some a, w3) \<and>
           status (heap w3 ! a) = RUNNING \<and>
           remainingMs (heap w3 ! a) = remainingMs p"
proof -
  let ?w0 = "pause_resume_cycles i cs w"
  from cycles_keep_running [OF assms, of cs] obtain r
    where wf0: "wf_store ?w0" and r: "map_of (stored ?w0) i = Some r" "status r = RUNNING"
    by auto
  note pr = pause_then_resume(1) [OF wf0 r, where ?t1.0 = t1 and ?d1.0 = d1]
    pause_then_resume(2) [OF wf0 r, where ?t1.0 = t1 and ?d1.0 = d1 and ?t2.0 = t2 and ?d2.0 = d2]
    pause_then_resume(3) [OF wf0 r, where ?t1.0 = t1 and ?d1.0 = d1 and ?t2.0 = t2 and ?d2.0 = d2]
  from getTimer_effect [OF pr(3) pr(2), of t2] obtain a w3
    where "getTimer i t2 (resumeTimer i t2 d2 (pauseTimer i t1 d1 ?w0)) = (Some a, w3)"
      and "heap w3 ! a =
        r\<lparr>remainingMs := max 0 (durationMs r - (t1 - startMonotonicMs r)),
          startMonotonicMs := t2,
          durationMs := max 0 (durationMs r - (t1 - startMonotonicMs r)),
          paused := False, status := RUNNING,
          remainingMs := max 0 (max 0 (durationMs r - (t1 - startMonotonicMs r)) - (t2 - t2))\<rparr>"
    by auto
  then show ?thesis using r pr(1)
    by (intro exI [of _ r]
        exI [of _ "r\<lparr>remainingMs := max 0 (durationMs r - (t1 - startMonotonicMs r)),
                    paused := True, status := PAUSED\<rparr>"]
        exI [of _ a] exI [of _ w3]) simp
qed

theorem pause_resume_preserves_remaining_witness:
  "wf_store world_running \<and> map_of (stored world_running) ''abc'' = Some tea_running \<and>
   status tea_running = RUNNING \<and>
   (\<exists>r p a w3.
      map_of (stored (pause_resume_cycles ''abc''
                 [(1000, 1, 2000, 2), (3000, 3, 5000, 4)] world_running)) ''abc'' = Some r \<and>
      status r = RUNNING \<and> durationMs r = 8000 \<and> startMonotonicMs r = 5000 \<and>
      map_of (stored (pauseTimer ''abc'' 6000 5
                (pause_resume_cycles ''abc''
                   [(1000, 1, 2000, 2), (3000, 3, 5000, 4)] world_running))) ''abc'' = Some p \<and>
      status p = PAUSED \<and> remainingMs p = 7000 \<and>
      getTimer ''abc'' 106000
        (resumeTimer ''abc'' 106000 6
           (pauseTimer ''abc'' 6000 5
              (pause_resume_cycles ''abc''
                 [(1000, 1, 2000, 2), (3000, 3, 5000, 4)] world_running))) = (Some a, w3) \<and>
      status (heap w3 ! a) = RUNNING \<and> remainingMs (heap w3 ! a) = 7000)"
proof -
  let ?w0 = "pause_resume_cycles ''abc'' [(1000, 1, 2000, 2), (3000, 3, 5000, 4)] world_running"
  have look: "map_of (stored world_running) ''abc'' = Some tea_running"
    by (simp add: world_running_facts)
  have run: "status tea_running = RUNNING"
    by (simp add: tea_running_def)
  have cyc: "map_of (stored ?w0) ''abc'' =
     Some (tea_running\<lparr>remainingMs := 8000, startMonotonicMs := 5000, durationMs := 8000\<rparr>)"
    by (simp add: pauseTimer_stored pauseTimer_wf resumeTimer_stored resumeTimer_wf
        world_running_facts tea_running_def)
  obtain r p a w3 where
    r: "map_of (stored ?w0) ''abc'' = Some r" "status r = RUNNING"
    and p: "map_of (stored (pauseTimer ''abc'' 6000 5 ?w0)) ''abc'' = Some p" "status p = PAUSED"
      "remainingMs p = max 0 (durationMs r - (6000 - startMonotonicMs r))"
    and g: "getTimer ''abc'' 106000 (resumeTimer ''abc'' 106000 6 (pauseTimer ''abc'' 6000 5 ?w0)) =
        (Some a, w3)" "status (heap w3 ! a) = RUNNING" "remainingMs (heap w3 ! a) = remainingMs p"
    using pause_resume_preserves_remaining [OF world_running_facts(1) look run,
        of "[(1000, 1, 2000, 2), (3000, 3, 5000, 4)]" 6000 5 106000 6]
    by blast
  from r(1) have "r = tea_running\<lparr>remainingMs := 8000, startMonotonicMs := 5000, durationMs := 8000\<rparr>"
    by (simp only: cyc option.inject)
  then have v: "durationMs r = 8000" "startMonotonicMs r = 5000" "remainingMs p = 7000"
    using p(3) by simp_all
  show ?thesis
    using world_running_facts(1) look run r p(1,2) g v
    by (intro conjI exI [of _ r] exI [of _ p] exI [of _ a] exI [of _ w3]) (simp_all only:)
qed

section \<open>The scheduler's own controller\<close>

lemma abort_other:
  assumes "wk_ctrl k \<noteq> c"
  shows "k \<in> set (sleeping (abort c w)) \<longleftrightarrow> k \<in> set (sleeping w)"
    and "controllers (abort c w) ! wk_ctrl k = controllers w ! wk_ctrl k"
  using assms by (simp_all add: abort_def)

lemma abort_removes:
  "\<not> controllers w ! wk_ctrl k \<Longrightarrow> k \<notin> set (sleeping (abort (wk_ctrl k) w))"
  by (simp add: abort_def)

lemma abort_rejects:
  "\<not> controllers w ! wk_ctrl k \<Longrightarrow> k \<in> set (sleeping w) \<Longrightarrow>
   k \<in> set (rejected (abort (wk_ctrl k) w))"
  by (simp add: abort_def)

lemma abort_keeps_gone: "k \<notin> set (sleeping w) \<Longrightarrow> k \<notin> set (sleeping (abort c w))"
  by (simp add: abort_def)

lemma abort_length [simp]: "length (controllers (abort c w)) = length (controllers w)"
  by (simp add: abort_def)

lemma scheduler_cancel_length [simp]:
  "length (controllers (scheduler_cancel i w)) = length (controllers w)"
  by (simp add: scheduler_cancel_def Let_def split: option.splits)

lemma scheduler_schedule_eq:
  "scheduler_schedule i due cb sg w =
     (scheduler_cancel i w)
       \<lparr>controllers := controllers (scheduler_cancel i w) @ [False],
        scheduledTimers :=
          AList.update i (length (controllers w)) (scheduledTimers (scheduler_cancel i w)),
        sleeping := sleeping (scheduler_cancel i w) @
          [\<lparr>wk_id = i, dueInMs = due, wk_ctrl = length (controllers w), wk_callback = cb\<rparr>]\<rparr>"
  by (simp add: scheduler_schedule_def new_AbortController_def Let_def)

text \<open>
  Aborting the controllers of a list of registrations: a wake-up that is pending and
  whose controller is on the list, not yet aborted, is rejected on the way.
\<close>

lemma fold_abort_gone:
  "k \<notin> set (sleeping w) \<Longrightarrow> k \<notin> set (sleeping (fold (\<lambda>(i, c). abort c) rs w))"
proof (induction rs arbitrary: w)
  case Nil
  then show ?case by simp
next
  case (Cons r rs)
  obtain i c where r: "r = (i, c)" by (cases r)
  have "k \<notin> set (sleeping (abort c w))"
    using Cons.prems by (rule abort_keeps_gone)
  from Cons.IH [OF this] show ?case
    by (simp add: r)
qed

lemma fold_abort_removes:
  assumes "wk_ctrl k \<in> snd ` set rs" and "\<not> controllers w ! wk_ctrl k"
  shows "k \<notin> set (sleeping (fold (\<lambda>(i, c). abort c) rs w))"
  using assms
proof (induction rs arbitrary: w)
  case Nil
  then show ?case by simp
next
  case (Cons r rs)
  obtain i c where r: "r = (i, c)" by (cases r)
  show ?case
  proof (cases "c = wk_ctrl k")
    case True
    then have "k \<notin> set (sleeping (abort c w))"
      using Cons.prems(2) by (simp add: abort_removes)
    from fold_abort_gone [OF this] show ?thesis
      by (simp add: r)
  next
    case False
    have "wk_ctrl k \<in> snd ` set rs"
      using Cons.prems(1) False by (simp add: r)
    moreover have "\<not> controllers (abort c w) ! wk_ctrl k"
      using Cons.prems(2) False abort_other(2) [of k c w] by simp
    ultimately have "k \<notin> set (sleeping (fold (\<lambda>(i, c). abort c) rs (abort c w)))"
      by (rule Cons.IH)
    then show ?thesis
      by (simp add: r)
  qed
qed

lemma abort_sets_flag: "c < length (controllers w) \<Longrightarrow> controllers (abort c w) ! c"
  by (simp add: abort_def)

lemma abort_keeps_flag: "controllers w ! c' \<Longrightarrow> controllers (abort c w) ! c'"
  by (cases "c = c'") (simp_all add: abort_def)

lemma fold_abort_keeps_flag:
  "controllers w ! c' \<Longrightarrow> controllers (fold (\<lambda>(i, c). abort c) rs w) ! c'"
proof (induction rs arbitrary: w)
  case Nil
  then show ?case by simp
next
  case (Cons r rs)
  obtain i c where r: "r = (i, c)" by (cases r)
  have "controllers (abort c w) ! c'"
    using Cons.prems by (rule abort_keeps_flag)
  from Cons.IH [OF this] show ?case
    by (simp add: r)
qed

lemma fold_abort_sets_flag:
  assumes "c' \<in> snd ` set rs" and "c' < length (controllers w)"
  shows "controllers (fold (\<lambda>(i, c). abort c) rs w) ! c'"
  using assms
proof (induction rs arbitrary: w)
  case Nil
  then show ?case by simp
next
  case (Cons r rs)
  obtain i c where r: "r = (i, c)" by (cases r)
  show ?case
  proof (cases "c = c'")
    case True
    then have "controllers (abort c w) ! c'"
      using Cons.prems(2) by (simp add: abort_sets_flag)
    from fold_abort_keeps_flag [OF this] show ?thesis
      by (simp add: r)
  next
    case False
    have "c' \<in> snd ` set rs"
      using Cons.prems(1) False by (simp add: r)
    moreover have "c' < length (controllers (abort c w))"
      using Cons.prems(2) by simp
    ultimately have "controllers (fold (\<lambda>(i, c). abort c) rs (abort c w)) ! c'"
      by (rule Cons.IH)
    then show ?thesis
      by (simp add: r)
  qed
qed

text \<open>
  C10. \<open>schedule\<close> does not look at the signal it is given: whatever signal the caller
  passes, the result is the same, and the wake-up listens to a controller created
  inside \<open>schedule\<close>. Aborting any other controller, the caller's among them, leaves the
  wake-up pending with its controller not aborted, so that when the sleep resolves the
  callback is run. \<open>cancel(id)\<close> and \<open>shutdown()\<close> abort the scheduler's controller: the
  wake-up is rejected and no longer pending.
\<close>

theorem schedule_ignores_caller_signal:
  assumes "signal < length (controllers w)"
    and "w1 = scheduler_schedule i due cb signal w"
    and "k = \<lparr>wk_id = i, dueInMs = due, wk_ctrl = length (controllers w), wk_callback = cb\<rparr>"
  shows "scheduler_schedule i due cb signal' w = w1 \<and>
         k \<in> set (sleeping w1) \<and>
         k \<in> set (sleeping (abort signal w1)) \<and>
         (\<forall>c. c \<noteq> wk_ctrl k \<longrightarrow>
            k \<in> set (sleeping (abort c w1)) \<and> \<not> controllers (abort c w1) ! wk_ctrl k) \<and>
         fire k date (abort signal w1) =
           (run_callback cb date
              ((abort signal w1)\<lparr>sleeping := remove1 k (sleeping (abort signal w1))\<rparr>))
             \<lparr>scheduledTimers := AList.delete i
                (scheduledTimers
                   (run_callback cb date
                      ((abort signal w1)\<lparr>sleeping := remove1 k (sleeping (abort signal w1))\<rparr>)))\<rparr> \<and>
         k \<notin> set (sleeping (scheduler_cancel i w1)) \<and>
         k \<in> set (rejected (scheduler_cancel i w1)) \<and>
         controllers (scheduler_cancel i w1) ! wk_ctrl k \<and>
         k \<notin> set (sleeping (scheduler_shutdown w1)) \<and>
         controllers (scheduler_shutdown w1) ! wk_ctrl k"
proof -
  have same: "scheduler_schedule i due cb signal' w = w1"
    by (simp add: assms(2) scheduler_schedule_eq)
  have ctrl: "wk_ctrl k = length (controllers w)" and id: "wk_id k = i"
    and cb: "wk_callback k = cb"
    by (simp_all add: assms(3))
  have pending: "k \<in> set (sleeping w1)"
    by (simp add: assms(2,3) scheduler_schedule_eq)
  have fresh: "\<not> controllers w1 ! wk_ctrl k"
    by (simp add: assms(2) ctrl scheduler_schedule_eq nth_append)
  have reg: "map_of (scheduledTimers w1) i = Some (wk_ctrl k)"
    by (simp add: assms(2) ctrl scheduler_schedule_eq update_conv')
  have others: "k \<in> set (sleeping (abort c w1)) \<and> \<not> controllers (abort c w1) ! wk_ctrl k"
    if "c \<noteq> wk_ctrl k" for c
    using that pending fresh abort_other [of k c w1] by simp
  have sig: "signal \<noteq> wk_ctrl k"
    using assms(1) ctrl by simp
  have fired: "fire k date (abort signal w1) =
           (run_callback cb date
              ((abort signal w1)\<lparr>sleeping := remove1 k (sleeping (abort signal w1))\<rparr>))
             \<lparr>scheduledTimers := AList.delete i
                (scheduledTimers
                   (run_callback cb date
                      ((abort signal w1)\<lparr>sleeping := remove1 k (sleeping (abort signal w1))\<rparr>)))\<rparr>"
    using others [OF sig] by (simp add: fire_def Let_def id cb)
  have cancel: "k \<notin> set (sleeping (scheduler_cancel i w1))"
    "k \<in> set (rejected (scheduler_cancel i w1))"
    using abort_removes [OF fresh] abort_rejects [OF fresh pending]
    by (simp_all add: scheduler_cancel_def reg Let_def)
  have alloc: "wk_ctrl k < length (controllers w1)"
    by (simp add: assms(2) ctrl scheduler_schedule_eq)
  have cancel_flag: "controllers (scheduler_cancel i w1) ! wk_ctrl k"
    using abort_sets_flag [OF alloc] by (simp add: scheduler_cancel_def reg Let_def)
  have registered: "wk_ctrl k \<in> snd ` set (scheduledTimers w1)"
    using map_of_SomeD [OF reg] by force
  from fold_abort_removes [OF this fresh]
  have shutdown: "k \<notin> set (sleeping (scheduler_shutdown w1))"
    by (simp add: scheduler_shutdown_def Let_def)
  from fold_abort_sets_flag [OF registered alloc]
  have shutdown_flag: "controllers (scheduler_shutdown w1) ! wk_ctrl k"
    by (simp add: scheduler_shutdown_def Let_def)
  show ?thesis
  proof (intro conjI allI impI)
    show "k \<in> set (sleeping (abort signal w1))"
      using others [OF sig] by (rule conjunct1)
    show "k \<in> set (sleeping (abort c w1))" if "c \<noteq> wk_ctrl k" for c
      using others [OF that] by (rule conjunct1)
    show "\<not> controllers (abort c w1) ! wk_ctrl k" if "c \<noteq> wk_ctrl k" for c
      using others [OF that] by (rule conjunct2)
  qed (fact same pending fired cancel cancel_flag shutdown shutdown_flag)+
qed


lemma world_running_eq:
  "world_running =
     eventBus_emit
       \<lparr>ev_type = TIMER_CREATED, ev_id = ''abc'', ev_name = Some ''tea'', timestamp = 1001\<rparr>
       (scheduler_schedule ''abc'' 10000 (CompleteTimer ''abc'') 0 world_before_schedule)"
  using createTimer_ok [OF parse_tea refl refl, of "''0.abc''" 0 1000 1001 init_world]
  by (simp add: world_running_def world_before_schedule_def generateId_def tea_running_def
      tea_request_def init_world_def)

lemma stored_sched_fields [simp]:
  "stored (w\<lparr>sleeping := ks\<rparr>) = stored w" "stored (w\<lparr>scheduledTimers := rs\<rparr>) = stored w"
  "stored (abort c w) = stored w"
  by (rule stored_cong; simp)+

lemma wf_store_sched_fields [simp]:
  "wf_store (w\<lparr>sleeping := ks\<rparr>) = wf_store w"
  "wf_store (w\<lparr>scheduledTimers := rs\<rparr>) = wf_store w"
  "wf_store (abort c w) = wf_store w"
  by (rule wf_store_cong; simp)+

lemma world_before_schedule_facts:
  "wf_store world_before_schedule" "stored world_before_schedule = [(''abc'', tea_running)]"
  by (simp_all add: wf_store_def stored_def world_before_schedule_def init_world_def
      tea_running_def)

theorem schedule_ignores_caller_signal_witness:
  "(0 :: nat) < length (controllers world_before_schedule) \<and>
   tea_wakeup \<in> set (sleeping
      (scheduler_schedule ''abc'' 10000 (CompleteTimer ''abc'') 0 world_before_schedule)) \<and>
   tea_wakeup \<in> set (sleeping (abort 0
      (scheduler_schedule ''abc'' 10000 (CompleteTimer ''abc'') 0 world_before_schedule))) \<and>
   map_option status (map_of (stored (fire tea_wakeup 2000 (abort 0
      (scheduler_schedule ''abc'' 10000 (CompleteTimer ''abc'') 0 world_before_schedule))))
      ''abc'') = Some COMPLETED \<and>
   tea_wakeup \<notin> set (sleeping (scheduler_cancel ''abc''
      (scheduler_schedule ''abc'' 10000 (CompleteTimer ''abc'') 0 world_before_schedule))) \<and>
   tea_wakeup \<notin> set (sleeping (scheduler_shutdown
      (scheduler_schedule ''abc'' 10000 (CompleteTimer ''abc'') 0 world_before_schedule)))"
proof -
  let ?w1 = "scheduler_schedule ''abc'' 10000 (CompleteTimer ''abc'') 0 world_before_schedule"
  have len: "(0 :: nat) < length (controllers world_before_schedule)"
    and k: "tea_wakeup = \<lparr>wk_id = ''abc'', dueInMs = 10000,
              wk_ctrl = length (controllers world_before_schedule),
              wk_callback = CompleteTimer ''abc''\<rparr>"
    by (simp_all add: world_before_schedule_def tea_wakeup_def)
  note c10 = schedule_ignores_caller_signal [OF len refl k, of 0 2000]
  let ?w2 = "(abort 0 ?w1)\<lparr>sleeping := remove1 tea_wakeup (sleeping (abort 0 ?w1))\<rparr>"
  have "wf_store ?w2" and "stored ?w2 = [(''abc'', tea_running)]"
    by (simp_all add: world_before_schedule_facts)
  then have "map_option status (map_of (stored (completeTimer ''abc'' 2000 ?w2)) ''abc'') =
      Some COMPLETED"
    by (simp add: completeTimer_stored tea_running_def)
  then have "map_option status (map_of (stored (fire tea_wakeup 2000 (abort 0 ?w1))) ''abc'') =
      Some COMPLETED"
    using c10 by (simp add: run_callback_def)
  then show ?thesis
    using c10 len by simp
qed

section \<open>The invariant holds in every reachable world\<close>

lemma fold_abort_frame:
  "heap (fold (\<lambda>(i, c). abort c) rs w) = heap w \<and>
   timers (fold (\<lambda>(i, c). abort c) rs w) = timers w"
  by (induction rs arbitrary: w) (simp_all add: split_beta)

lemma wf_store_shutdown: "wf_store (scheduler_shutdown w) = wf_store w"
  by (rule wf_store_cong) (simp_all add: scheduler_shutdown_def Let_def fold_abort_frame)

lemma wf_store_settle: "wf_store (settle k w) = wf_store w"
  by (rule wf_store_cong) (simp_all add: settle_def)

lemma wf_store_fire: "wf_store w \<Longrightarrow> wf_store (fire k date w)"
  by (cases "wk_callback k") (simp add: fire_def Let_def run_callback_def completeTimer_wf)

lemma wf_store_getTimer: "wf_store w \<Longrightarrow> wf_store (snd (getTimer i now w))"
proof (cases "map_of (stored w) i")
  case None
  then show "wf_store w \<Longrightarrow> ?thesis" by (simp add: getTimer_absent)
next
  case (Some t)
  assume "wf_store w"
  from getTimer_effect [OF this Some, of now] show ?thesis by auto
qed

lemma wf_store_listTimers: "wf_store w \<Longrightarrow> wf_store (snd (listTimers w))"
proof -
  assume wf: "wf_store w"
  then have "\<forall>a \<in> set (map snd (timers w)). a < length (heap w)"
    by (auto simp: wf_store_def)
  from copy_all_spec [OF this] show ?thesis
    by (simp add: listTimers_def store_list_def wf_store_copy [OF wf])
qed

lemma wf_store_createTimer:
  assumes "wf_store w"
  shows "wf_store (snd (createTimer request random36 now date1 date2 w))"
proof (cases "parseDuration (duration request)")
  case (Inl e)
  then show ?thesis using assms by (simp add: createTimer_error)
next
  case (Inr d)
  from createTimer_effect [OF assms this] show ?thesis by simp
qed

theorem reachable_wf_store: "reachable w \<Longrightarrow> wf_store w"
proof (induction rule: reachable.induct)
  case start
  show ?case by (rule wf_store_init)
qed (simp_all add: wf_store_createTimer wf_store_getTimer pauseTimer_wf resumeTimer_wf
    cancelTimer_wf wf_store_listTimers wf_store_fire wf_store_settle wf_store_shutdown)

section \<open>A wake-up that outlives its cancellation\<close>

lemmas engine_defs = createTimer_def cancelTimer_def completeTimer_def store_get_def store_put_def
  new_object_def assign_def eventBus_emit_def new_AbortController_def scheduler_schedule_def
  scheduler_cancel_def abort_def settle_def fire_def run_callback_def generateId_def
  parseDuration_def init_world_def tea_request_def

lemma world_recreated_scheduler:
  "scheduledTimers world_recreated = [(''abc'', 3)]"
  "sleeping world_recreated = [second_wakeup]"
  "rejected world_recreated = [tea_wakeup]"
  by (simp_all add: world_recreated_def world_running_def tea_wakeup_def second_wakeup_def
      engine_defs Let_def eval_nat_numeral)

lemma world_orphaned_scheduler:
  "scheduledTimers world_orphaned = []"
  "sleeping world_orphaned = [second_wakeup]"
  "map_option status (map_of (stored world_orphaned) ''abc'') = Some CANCELED"
  by (simp_all add: world_orphaned_def world_recreated_def world_running_def tea_wakeup_def
      second_wakeup_def stored_def engine_defs Let_def eval_nat_numeral)

lemma reachable_world_orphaned: "reachable world_orphaned"
proof -
  have "reachable world_running"
    unfolding world_running_def by (intro reachable.create reachable.start)
  then have "reachable world_recreated"
    unfolding world_recreated_def by (rule reachable.create)
  then have "reachable (settle tea_wakeup world_recreated)"
    by (rule reachable.settled) (simp add: world_recreated_scheduler)
  then show ?thesis
    unfolding world_orphaned_def by (rule reachable.cancel)
qed

text \<open>
  When the random draw repeats, the \<open>finally\<close> of the superseded \<open>schedule\<close> call
  deletes the registration of the new wake-up. \<open>cancelTimer\<close> then finds no controller
  to abort, the wake-up stays pending, and when its sleep resolves the callback
  completes the timer that was canceled.
\<close>

lemma late_wakeup_completes_canceled_timer:
  "reachable world_orphaned \<and> second_wakeup \<in> set (sleeping world_orphaned) \<and>
   map_option status (map_of (stored world_orphaned) ''abc'') = Some CANCELED \<and>
   map_option status (map_of (stored (fire second_wakeup 4000 world_orphaned)) ''abc'') =
     Some COMPLETED \<and>
   map ev_type (emitted (fire second_wakeup 4000 world_orphaned)) =
     [TIMER_CREATED, TIMER_CREATED, TIMER_CANCELED, TIMER_COMPLETED]"
proof -
  have "map_option status (map_of (stored (fire second_wakeup 4000 world_orphaned)) ''abc'') =
     Some COMPLETED"
    and "map ev_type (emitted (fire second_wakeup 4000 world_orphaned)) =
     [TIMER_CREATED, TIMER_CREATED, TIMER_CANCELED, TIMER_COMPLETED]"
    by (simp_all add: world_orphaned_def world_recreated_def world_running_def tea_wakeup_def
        second_wakeup_def stored_def engine_defs Let_def eval_nat_numeral)
  then show ?thesis
    by (simp add: reachable_world_orphaned world_orphaned_scheduler)
qed

end
